theory Spec2Isabelle
  imports Complex_Main "HOL-Library.Sublist"
begin

section \<open>Strings\<close>

text \<open>
  A Go string is a sequence of bytes; it is modelled as a \<open>char list\<close>, whose characters
  are bytes too, so \<open>length\<close> is Go's \<open>len\<close> and \<open>s ! i\<close> is \<open>s[i]\<close> within range.

  \<open>strings.TrimSpace\<close> and \<open>strings.ToLower\<close> belong to Go's standard library, where
  they follow Unicode: \<open>TrimSpace\<close> also removes white space such as U+0085, U+00A0 and
  U+3000, and \<open>ToLower\<close> also maps letters such as U+00C9. Here they are modelled on ASCII
  text only: the white space of \<open>TrimSpace\<close> is tab, line feed, vertical tab, form feed,
  carriage return and space, and \<open>ToLower\<close> maps the letters A to Z. On a string whose
  bytes are all below \<open>utf8.RuneSelf\<close>, which is 0x80, the two library functions take
  their ASCII paths and compute what the definitions below compute; \<open>isASCII\<close> describes
  these strings. On other strings the definitions say nothing about the library, and the
  statements about trimming, blank text and letter case below are made for ASCII strings.
\<close>

definition isASCII :: "string \<Rightarrow> bool" where
  "isASCII s \<longleftrightarrow> list_all (\<lambda>c. (of_char c :: nat) < 0x80) s"

definition isSpace :: "char \<Rightarrow> bool" where
  "isSpace c \<longleftrightarrow>
     c = CHR 0x09 \<or> c = CHR 0x0A \<or> c = CHR 0x0B \<or> c = CHR 0x0C \<or> c = CHR 0x0D \<or> c = CHR '' ''"

definition TrimSpace :: "string \<Rightarrow> string" where
  "TrimSpace s = rev (dropWhile isSpace (rev (dropWhile isSpace s)))"

definition lowerChar :: "char \<Rightarrow> char" where
  "lowerChar c =
     (if (65::nat) \<le> of_char c \<and> of_char c \<le> (90::nat) then char_of (of_char c + (32::nat)) else c)"

definition ToLower :: "string \<Rightarrow> string" where
  "ToLower s = map lowerChar s"

section \<open>Data model (package database)\<close>

text \<open>
  The \<open>Question\<close> struct. Its \<open>CreatedAt\<close> time stamp is filled in by the storage engine's
  clock and is read by no function modelled here; it is left out.
\<close>

record Question =
  ID :: int
  TestID :: int
  QuestionText :: string
  QuestionType :: string
  Options :: "string list"
  CorrectAnswer :: string
  Explanation :: string

text \<open>The \<open>Test\<close> and \<open>TestResult\<close> structs, again without their time stamps.\<close>

record Test =
  Test_ID :: int
  Test_Name :: string
  Test_Description :: string

record TestResult =
  TR_ID :: int
  TR_TestID :: int
  TR_Score :: real
  TR_TotalQuestions :: int
  TR_CorrectAnswers :: int
  TR_TimeTaken :: int

section \<open>Floating-point numbers\<close>

text \<open>
  The score of a test is a \<open>float64\<close>. Go computes with such numbers after IEEE 754: the
  exact result of an operation is rounded to the nearest number with a mantissa of 53 bits,
  and a tie goes to the even mantissa. A finite \<open>float64\<close> that is not negative is modelled
  as a pair \<open>(m, e)\<close> of integers that stands for \<open>m * 2 ^ e\<close>; \<open>valof\<close> is that number.
  The exponent is not bounded here: the scores lie between 0 and 100 and their quotients
  are no smaller than \<open>2 ^ - 63\<close>, far from overflow and underflow.

  \<open>bitlen n\<close> is the number of binary digits of \<open>n\<close>. \<open>ilogb a b\<close> is the integer part of the
  binary logarithm of \<open>a / b\<close>, found from the bit lengths and one comparison.
  \<open>roundHalfEven n d\<close> rounds the fraction \<open>n / d\<close> to the nearest integer, a tie to the even
  one. \<open>roundRatio a b\<close> is the \<open>float64\<close> nearest to \<open>a / b\<close>: the fraction is scaled to
  lie between \<open>2 ^ 52\<close> and \<open>2 ^ 53\<close> and rounded there. \<open>ofInt\<close> is the conversion
  \<open>float64(n)\<close>, \<open>fdiv\<close> the division and \<open>fmul\<close> the multiplication; \<open>fdiv\<close> is used with a
  divisor that is not zero only.
\<close>

function bitlen :: "int \<Rightarrow> nat" where
  "bitlen n = (if n \<le> 0 then 0 else Suc (bitlen (n div 2)))"
  by pat_completeness auto
termination
  by (relation "measure nat") auto

declare bitlen.simps [simp del]

type_synonym float64 = "int \<times> int"

definition pow2 :: "int \<Rightarrow> real" where
  "pow2 e = (if e \<ge> 0 then 2 ^ nat e else 1 / 2 ^ nat (- e))"

definition valof :: "float64 \<Rightarrow> real" where
  "valof f = (case f of (m, e) \<Rightarrow> real_of_int m * pow2 e)"

definition ilogb :: "int \<Rightarrow> int \<Rightarrow> int" where
  "ilogb a b =
     (let k = int (bitlen a) - int (bitlen b) in
      if (if k \<ge> 0 then b * 2 ^ nat k \<le> a else b \<le> a * 2 ^ nat (- k)) then k else k - 1)"

definition roundHalfEven :: "int \<Rightarrow> int \<Rightarrow> int" where
  "roundHalfEven n d =
     (let q = n div d; r = n mod d in
      if 2 * r < d then q else if d < 2 * r then q + 1 else if even q then q else q + 1)"

definition roundRatio :: "int \<Rightarrow> int \<Rightarrow> float64" where
  "roundRatio a b =
     (if a \<le> 0 then (0, 0)
      else
        (let e = ilogb a b - 52 in
         if e \<ge> 0 then (roundHalfEven a (b * 2 ^ nat e), e)
         else (roundHalfEven (a * 2 ^ nat (- e)) b, e)))"

definition ofInt :: "int \<Rightarrow> float64" where
  "ofInt n = roundRatio n 1"

definition fdiv :: "float64 \<Rightarrow> float64 \<Rightarrow> float64" where
  "fdiv x y = (case (x, y) of ((m1, e1), (m2, e2)) \<Rightarrow>
     (case roundRatio m1 m2 of (m, e) \<Rightarrow> (m, e + e1 - e2)))"

definition fmul :: "float64 \<Rightarrow> float64 \<Rightarrow> float64" where
  "fmul x y = (case (x, y) of ((m1, e1), (m2, e2)) \<Rightarrow>
     (case roundRatio (m1 * m2) 1 of (m, e) \<Rightarrow> (m, e + e1 + e2)))"

section \<open>Scoring (tui/models.go, tui/test\_results.go)\<close>

text \<open>
  \<open>calculateScore\<close> walks the questions once. \<open>countCorrect\<close> is its \<open>for\<close> loop, with the
  running value of \<open>correct\<close> as accumulator: a question whose id is not a key of the answer
  map is skipped by \<open>continue\<close>; otherwise both answers are trimmed and lower-cased and
  compared.

  The score is the \<open>float64\<close> that \<open>float64(correct) / float64(total) * 100\<close> computes, with
  the rounding of the conversions, of the division and of the multiplication; the function
  returns the real number that this \<open>float64\<close> denotes.
\<close>

fun countCorrect :: "Question list \<Rightarrow> (int \<rightharpoonup> string) \<Rightarrow> nat \<Rightarrow> nat" where
  "countCorrect [] answers correct = correct"
| "countCorrect (q # qs) answers correct =
     (case answers (ID q) of
        None \<Rightarrow> countCorrect qs answers correct
      | Some userAnswer \<Rightarrow>
          (if ToLower (TrimSpace (CorrectAnswer q)) = ToLower (TrimSpace userAnswer)
           then countCorrect qs answers (correct + 1)
           else countCorrect qs answers correct))"

definition calculateScore :: "Question list \<Rightarrow> (int \<rightharpoonup> string) \<Rightarrow> nat \<times> real" where
  "calculateScore questions answers =
     (let correct = countCorrect questions answers 0;
          total = length questions;
          score = (if total > 0
                   then valof (fmul (fdiv (ofInt (int correct)) (ofInt (int total))) (ofInt 100))
                   else 0)
      in (correct, score))"

text \<open>
  \<open>getGrade\<close>: a \<open>switch\<close> whose cases are tried in order. The percentage is a finite
  \<open>float64\<close>, read as the real number it denotes; comparing it with 90, 80, 70 and 60 is
  exact.
\<close>

definition getGrade :: "real \<Rightarrow> string" where
  "getGrade percentage =
     (if percentage \<ge> 90 then ''A''
      else if percentage \<ge> 80 then ''B''
      else if percentage \<ge> 70 then ''C''
      else if percentage \<ge> 60 then ''D''
      else ''F'')"

section \<open>Session state (package tui)\<close>

text \<open>
  \<open>ViewType\<close> is a string type with eight constants; the application only ever stores
  one of them, so it is a datatype here. A \<open>tea.Msg\<close> is a key press, carrying the name
  that \<open>msg.String()\<close> returns (\<open>''enter''\<close>, \<open>''esc''\<close>, \<open>''a''\<close>, ...), or some other message.
  A handler returns the application and a command, \<open>nil\<close> or \<open>tea.Quit\<close>.

  The sub-models hang off the \<open>App\<close> by pointers that are never shared, so mutation in
  place is state passing. Fields of different structs that share a name carry a prefix.
  Go's \<open>int\<close> is \<open>int\<close>: the counters here stay far from the 64-bit limits. A nil and an
  empty slice are both \<open>[]\<close>. A run-time panic of the source is a value of type \<open>panic\<close>.
\<close>

datatype ViewType =
  MainMenuView | PDFProcessView | CustomQuestionView | TestSelectionView
  | TestTakingView | TestResultsView | FileSelectionView | QuestionGenView

datatype Msg = KeyMsg string | OtherMsg

datatype Cmd = NoCmd | Quit

datatype panic = NilDereference | IndexOutOfRange | SliceOutOfRange

record MainMenuModel =
  mm_choices :: "string list"
  mm_cursor :: int

record PDFProcessModel =
  pdf_selectedFile :: string
  pdf_extractedText :: string
  pdf_step :: int
  pdf_errorMsg :: string
  pdf_successMsg :: string
  pdf_loading :: bool
  pdf_numQuestions :: string
  pdf_questionTypes :: "string \<rightharpoonup> bool"
  pdf_testName :: string
  pdf_testDesc :: string
  pdf_inputMode :: string
  pdf_input :: string
  pdf_cursor :: int

record CurrentQuestion =
  cq_text :: string
  cq_qType :: string
  cq_options :: "string list"
  cq_correctAnswer :: string
  cq_explanation :: string

record QuestionData =
  QD_Text :: string
  QD_Type :: string
  QD_Options :: "string list"
  QD_CorrectAnswer :: string
  QD_Explanation :: string

record CustomQuestionModel =
  cqm_step :: int
  cqm_cursor :: int
  cqm_inputMode :: string
  cqm_input :: string
  cqm_errorMsg :: string
  cqm_successMsg :: string
  cqm_testName :: string
  cqm_testDesc :: string
  cqm_currentQuestion :: CurrentQuestion
  cqm_questions :: "QuestionData list"
  cqm_questionTypes :: "string list"
  cqm_typeIndex :: int
  cqm_optionIndex :: int

record TestSelectionModel =
  ts_tests :: "Test list"
  ts_cursor :: int
  ts_purpose :: string
  ts_errorMsg :: string
  ts_loading :: bool

record TestTakingModel =
  tt_currentQuestion :: int
  tt_input :: string
  tt_inputMode :: bool
  tt_showResult :: bool
  tt_resultMsg :: string
  tt_cursor :: int
  tt_errorMsg :: string
  tt_reviewMode :: bool
  tt_reviewQuestion :: int

record FileSelectionModel =
  fs_files :: "string list"
  fs_cursor :: int
  fs_currentDir :: string
  fs_purpose :: string
  fs_errorMsg :: string
  fs_loading :: bool
  fs_inputMode :: bool
  fs_input :: string

text \<open>
  The application. Its handles on the collaborators (\<open>db\<close>, \<open>chatGPT\<close>, \<open>pdfProcessor\<close>)
  are not state of the session: a function that calls a collaborator takes the call as a
  parameter. The models of the results browser and of the unused generation screen
  (\<open>testResults\<close>, \<open>questionGen\<close>) are touched by no function modelled here and are left
  out, as is the time stamp \<open>testStartTime\<close>, which is only read against the clock.
\<close>

record App =
  currentView :: ViewType
  mainMenu :: MainMenuModel
  pdfProcess :: PDFProcessModel
  customQuestion :: CustomQuestionModel
  testSelection :: TestSelectionModel
  testTaking :: TestTakingModel
  fileSelection :: FileSelectionModel
  currentTest :: "Test option"
  currentQuestions :: "Question list"
  userAnswers :: "int \<rightharpoonup> string"

section \<open>Taking a test (tui/test\_taking.go)\<close>

definition NewTestTakingModel :: TestTakingModel where
  "NewTestTakingModel =
     \<lparr>tt_currentQuestion = 0, tt_input = [], tt_inputMode = False, tt_showResult = False,
      tt_resultMsg = [], tt_cursor = 0, tt_errorMsg = [], tt_reviewMode = False,
      tt_reviewQuestion = 0\<rparr>"

definition nextQuestion :: "App \<Rightarrow> App \<times> Cmd" where
  "nextQuestion a =
     (let t = (testTaking a)\<lparr>tt_cursor := 0\<rparr> in
      if tt_currentQuestion t < int (length (currentQuestions a)) - 1
      then (a\<lparr>testTaking := t\<lparr>tt_currentQuestion := tt_currentQuestion t + 1\<rparr>\<rparr>, NoCmd)
      else (a\<lparr>testTaking := t\<lparr>tt_showResult := True\<rparr>\<rparr>, NoCmd))"

text \<open>
  \<open>currentQ\<close> reads \<open>a.currentQuestions[a.testTaking.currentQuestion]\<close>, which panics out
  of range.
\<close>

definition currentQ :: "App \<Rightarrow> panic + Question" where
  "currentQ a =
     (let i = tt_currentQuestion (testTaking a) in
      if 0 \<le> i \<and> i < int (length (currentQuestions a))
      then Inr (currentQuestions a ! nat i) else Inl IndexOutOfRange)"

definition letters :: "string list" where
  "letters = [''A'', ''B'', ''C'', ''D'']"

definition handleMultipleChoice :: "App \<Rightarrow> string \<Rightarrow> panic + App \<times> Cmd" where
  "handleMultipleChoice a key =
     (case currentQ a of
        Inl p \<Rightarrow> Inl p
      | Inr q \<Rightarrow>
          (let t = testTaking a; c = tt_cursor t in
           if key = ''up'' \<or> key = ''k'' then
             Inr (if c > 0 then a\<lparr>testTaking := t\<lparr>tt_cursor := c - 1\<rparr>\<rparr> else a, NoCmd)
           else if key = ''down'' \<or> key = ''j'' then
             Inr (if c < int (length (Options q)) - 1
                  then a\<lparr>testTaking := t\<lparr>tt_cursor := c + 1\<rparr>\<rparr> else a, NoCmd)
           else if key = ''enter'' \<or> key = '' '' then
             (if int (length (Options q)) > c then
                (if c < int (length letters) then
                   (if c < 0 then Inl IndexOutOfRange
                    else Inr (nextQuestion
                           (a\<lparr>userAnswers := (userAnswers a)(ID q \<mapsto> letters ! nat c)\<rparr>)))
                 else Inr (a, NoCmd))
              else Inr (a, NoCmd))
           else Inr (a, NoCmd)))"

definition handleTrueFalse :: "App \<Rightarrow> string \<Rightarrow> panic + App \<times> Cmd" where
  "handleTrueFalse a key =
     (case currentQ a of
        Inl p \<Rightarrow> Inl p
      | Inr q \<Rightarrow>
          (let t = testTaking a; c = tt_cursor t in
           if key = ''up'' \<or> key = ''k'' then
             Inr (if c > 0 then a\<lparr>testTaking := t\<lparr>tt_cursor := c - 1\<rparr>\<rparr> else a, NoCmd)
           else if key = ''down'' \<or> key = ''j'' then
             Inr (if c < 1 then a\<lparr>testTaking := t\<lparr>tt_cursor := c + 1\<rparr>\<rparr> else a, NoCmd)
           else if key = ''enter'' \<or> key = '' '' then
             Inr (nextQuestion
                    (a\<lparr>userAnswers :=
                         (userAnswers a)(ID q \<mapsto> (if c = 1 then ''false'' else ''true''))\<rparr>))
           else Inr (a, NoCmd)))"

definition handleShortAnswer :: "App \<Rightarrow> string \<Rightarrow> panic + App \<times> Cmd" where
  "handleShortAnswer a key =
     (case currentQ a of
        Inl p \<Rightarrow> Inl p
      | Inr q \<Rightarrow>
          (let t = testTaking a in
           if key = ''enter'' then
             (if TrimSpace (tt_input t) = []
              then Inr (a\<lparr>testTaking := t\<lparr>tt_errorMsg := ''Please enter an answer''\<rparr>\<rparr>, NoCmd)
              else Inr (nextQuestion
                     (a\<lparr>userAnswers := (userAnswers a)(ID q \<mapsto> TrimSpace (tt_input t)),
                        testTaking := t\<lparr>tt_input := []\<rparr>\<rparr>)))
           else if key = ''backspace'' then
             Inr (if length (tt_input t) > 0
                  then a\<lparr>testTaking := t\<lparr>tt_input := butlast (tt_input t)\<rparr>\<rparr> else a, NoCmd)
           else
             Inr (if length key = 1
                  then a\<lparr>testTaking := t\<lparr>tt_input := tt_input t @ key\<rparr>\<rparr> else a, NoCmd)))"

definition handleAnswerReview :: "App \<Rightarrow> string \<Rightarrow> App \<times> Cmd" where
  "handleAnswerReview a key =
     (let t = testTaking a; r = tt_reviewQuestion t in
      if key = ''left'' \<or> key = ''h'' then
        (if r > 0 then a\<lparr>testTaking := t\<lparr>tt_reviewQuestion := r - 1\<rparr>\<rparr> else a, NoCmd)
      else if key = ''right'' \<or> key = ''l'' then
        (if r < int (length (currentQuestions a)) - 1
         then a\<lparr>testTaking := t\<lparr>tt_reviewQuestion := r + 1\<rparr>\<rparr> else a, NoCmd)
      else if key = ''esc'' then
        (a\<lparr>testTaking := t\<lparr>tt_reviewMode := False, tt_reviewQuestion := 0\<rparr>\<rparr>, NoCmd)
      else (a, NoCmd))"

text \<open>
  \<open>saveTestResults\<close>. The call \<open>a.db.SaveTestResult\<close> is the parameter \<open>save\<close>: it answers
  with an error message or with the stored result. \<open>elapsed\<close> is what
  \<open>int(time.Since(a.testStartTime).Seconds())\<close> gives at the time of the call. Reading
  \<open>a.currentTest.ID\<close> panics when no test is current.
\<close>

type_synonym SaveTestResult = "int \<Rightarrow> real \<Rightarrow> int \<Rightarrow> int \<Rightarrow> int \<Rightarrow> string + TestResult"

definition saveTestResults :: "SaveTestResult \<Rightarrow> int \<Rightarrow> App \<Rightarrow> panic + App \<times> Cmd" where
  "saveTestResults save elapsed a =
     (let (correct, score) = calculateScore (currentQuestions a) (userAnswers a);
          total = length (currentQuestions a);
          timeTaken = elapsed
      in case currentTest a of
           None \<Rightarrow> Inl NilDereference
         | Some test \<Rightarrow>
             (case save (Test_ID test) score (int total) (int correct) timeTaken of
                Inl err \<Rightarrow>
                  Inr (a\<lparr>testTaking :=
                          (testTaking a)\<lparr>tt_errorMsg := ''Failed to save results: '' @ err\<rparr>\<rparr>,
                       NoCmd)
              | Inr result \<Rightarrow>
                  Inr (a\<lparr>testTaking := NewTestTakingModel,
                         currentTest := None,
                         currentQuestions := [],
                         userAnswers := Map.empty,
                         currentView := MainMenuView\<rparr>, NoCmd)))"

definition handleResultView ::
  "SaveTestResult \<Rightarrow> int \<Rightarrow> App \<Rightarrow> string \<Rightarrow> panic + App \<times> Cmd" where
  "handleResultView save elapsed a key =
     (if tt_reviewMode (testTaking a) then Inr (handleAnswerReview a key)
      else if key = ''enter'' then saveTestResults save elapsed a
      else if key = ''r'' then
        Inr (a\<lparr>testTaking := (testTaking a)\<lparr>tt_reviewMode := True, tt_reviewQuestion := 0\<rparr>\<rparr>,
             NoCmd)
      else Inr (a, NoCmd))"

definition updateTestTaking ::
  "SaveTestResult \<Rightarrow> int \<Rightarrow> App \<Rightarrow> Msg \<Rightarrow> panic + App \<times> Cmd" where
  "updateTestTaking save elapsed a msg =
     (if length (currentQuestions a) = 0 then Inr (a\<lparr>currentView := MainMenuView\<rparr>, NoCmd)
      else case msg of
        KeyMsg key \<Rightarrow>
          (if tt_showResult (testTaking a) then handleResultView save elapsed a key
           else case currentQ a of
             Inl p \<Rightarrow> Inl p
           | Inr q \<Rightarrow>
               (if QuestionType q = ''multiple_choice'' then handleMultipleChoice a key
                else if QuestionType q = ''true_false'' then handleTrueFalse a key
                else if QuestionType q = ''short_answer'' then handleShortAnswer a key
                else Inr (a, NoCmd)))
      | OtherMsg \<Rightarrow> Inr (a, NoCmd))"

section \<open>Formatting and parsing numbers\<close>

text \<open>
  \<open>itoa\<close> is what \<open>fmt.Sprintf\<close> prints for \<open>%d\<close>. \<open>Atoi\<close> is \<open>strconv.Atoi\<close>: an optional
  sign, then one or more decimal digits and nothing else; a value outside the 64-bit range
  is an error as well.
\<close>

fun natDigits :: "nat \<Rightarrow> string" where
  "natDigits n =
     (if n < 10 then [char_of (48 + n)] else natDigits (n div 10) @ [char_of (48 + n mod 10)])"

definition itoa :: "int \<Rightarrow> string" where
  "itoa n = (if n < 0 then CHR ''-'' # natDigits (nat (- n)) else natDigits (nat n))"





section \<open>Main menu and dispatch (tui/models.go, main menu)\<close>

text \<open>The five choices, without the pictograph each one starts with in the source.\<close>

definition NewMainMenuModel :: MainMenuModel where
  "NewMainMenuModel =
     \<lparr>mm_choices = [''Generate questions from PDF'', ''Create custom questions'',
                    ''Take practice test'', ''View saved tests'', ''Exit''],
      mm_cursor = 0\<rparr>"

definition handleMainMenuSelection :: "App \<Rightarrow> App \<times> Cmd" where
  "handleMainMenuSelection a =
     (let c = mm_cursor (mainMenu a) in
      if c = 0 then
        (a\<lparr>currentView := FileSelectionView,
           fileSelection := (fileSelection a)\<lparr>fs_purpose := ''pdf_generation''\<rparr>\<rparr>, NoCmd)
      else if c = 1 then (a\<lparr>currentView := CustomQuestionView\<rparr>, NoCmd)
      else if c = 2 then
        (a\<lparr>currentView := TestSelectionView,
           testSelection := (testSelection a)\<lparr>ts_purpose := ''take_test''\<rparr>\<rparr>, NoCmd)
      else if c = 3 then
        (a\<lparr>currentView := TestSelectionView,
           testSelection := (testSelection a)\<lparr>ts_purpose := ''view_tests''\<rparr>\<rparr>, NoCmd)
      else if c = 4 then (a, Quit)
      else (a, NoCmd))"

definition updateMainMenu :: "App \<Rightarrow> Msg \<Rightarrow> App \<times> Cmd" where
  "updateMainMenu a msg =
     (case msg of
        KeyMsg key \<Rightarrow>
          (let m = mainMenu a; c = mm_cursor m in
           if key = ''q'' then (a, Quit)
           else if key = ''up'' \<or> key = ''k'' then
             (if c > 0 then a\<lparr>mainMenu := m\<lparr>mm_cursor := c - 1\<rparr>\<rparr> else a, NoCmd)
           else if key = ''down'' \<or> key = ''j'' then
             (if c < int (length (mm_choices m)) - 1
              then a\<lparr>mainMenu := m\<lparr>mm_cursor := c + 1\<rparr>\<rparr> else a, NoCmd)
           else if key = ''enter'' \<or> key = '' '' then handleMainMenuSelection a
           else (a, NoCmd))
      | OtherMsg \<Rightarrow> (a, NoCmd))"

text \<open>
  \<open>Update\<close>, the entry point for every message. The handlers of the seven other views
  reach the file system, the storage and the generation service; \<open>Update\<close> takes them as
  the parameter \<open>handler\<close>, which is given the view to serve.
\<close>

definition Update ::
  "(ViewType \<Rightarrow> App \<Rightarrow> Msg \<Rightarrow> panic + App \<times> Cmd) \<Rightarrow> App \<Rightarrow> Msg \<Rightarrow> panic + App \<times> Cmd" where
  "Update handler a msg =
     (let route =
            (case currentView a of
               MainMenuView \<Rightarrow> Inr (updateMainMenu a msg)
             | v \<Rightarrow> handler v a msg)
      in case msg of
           KeyMsg key \<Rightarrow>
             (if key = ''ctrl+c'' then Inr (a, Quit)
              else if key = ''esc'' \<and> currentView a \<noteq> MainMenuView
              then Inr (a\<lparr>currentView := MainMenuView\<rparr>, NoCmd)
              else route)
         | OtherMsg \<Rightarrow> route)"

section \<open>The PDF wizard's configure step\<close>

definition NewPDFProcessModel :: PDFProcessModel where
  "NewPDFProcessModel =
     \<lparr>pdf_selectedFile = [], pdf_extractedText = [], pdf_step = 0, pdf_errorMsg = [],
      pdf_successMsg = [], pdf_loading = False, pdf_numQuestions = ''5'',
      pdf_questionTypes =
        [''multiple_choice'' \<mapsto> True, ''true_false'' \<mapsto> False, ''short_answer'' \<mapsto> False],
      pdf_testName = ''Generated Test'', pdf_testDesc = ''Test generated from PDF'',
      pdf_inputMode = [], pdf_input = [], pdf_cursor = 0\<rparr>"

text \<open>Reading a Go \<open>map[string]bool\<close> at a key it does not hold gives \<open>false\<close>.\<close>

definition enabled :: "(string \<rightharpoonup> bool) \<Rightarrow> string \<Rightarrow> bool" where
  "enabled m k = (case m k of Some b \<Rightarrow> b | None \<Rightarrow> False)"

definition types :: "string list" where
  "types = [''multiple_choice'', ''true_false'', ''short_answer'']"

text \<open>
  The loop of \<open>toggleQuestionTypes\<close> over \<open>types\<close>, at index \<open>i\<close> with the elements from
  there on: the first enabled type is switched off, its successor on, and the loop breaks.
\<close>

fun toggleLoop :: "nat \<Rightarrow> string list \<Rightarrow> (string \<rightharpoonup> bool) \<Rightarrow> (string \<rightharpoonup> bool)" where
  "toggleLoop i [] m = m"
| "toggleLoop i (qType # rest) m =
     (if enabled m qType
      then (m(qType \<mapsto> False))(types ! ((i + 1) mod length types) \<mapsto> True)
      else toggleLoop (i + 1) rest m)"

definition toggleQuestionTypes :: "App \<Rightarrow> App \<times> Cmd" where
  "toggleQuestionTypes a =
     (a\<lparr>pdfProcess :=
          (pdfProcess a)\<lparr>pdf_questionTypes :=
                           toggleLoop 0 types (pdf_questionTypes (pdfProcess a))\<rparr>\<rparr>, NoCmd)"

definition handleConfigureStep :: "App \<Rightarrow> string \<Rightarrow> App \<times> Cmd" where
  "handleConfigureStep a key =
     (let m = pdfProcess a; c = pdf_cursor m in
      if key = ''up'' \<or> key = ''k'' then
        (if c > 0 then a\<lparr>pdfProcess := m\<lparr>pdf_cursor := c - 1\<rparr>\<rparr> else a, NoCmd)
      else if key = ''down'' \<or> key = ''j'' then
        (if c < 3 then a\<lparr>pdfProcess := m\<lparr>pdf_cursor := c + 1\<rparr>\<rparr> else a, NoCmd)
      else if key = ''n'' then
        (if c = 0
         then a\<lparr>pdfProcess := m\<lparr>pdf_inputMode := ''num_questions'',
                                 pdf_input := pdf_numQuestions m\<rparr>\<rparr>
         else a, NoCmd)
      else if key = ''t'' then (if c = 1 then toggleQuestionTypes a else (a, NoCmd))
      else if key = ''e'' then
        (if c = 2
         then a\<lparr>pdfProcess := m\<lparr>pdf_inputMode := ''test_name'', pdf_input := pdf_testName m\<rparr>\<rparr>
         else a, NoCmd)
      else if key = ''d'' then
        (if c = 3
         then a\<lparr>pdfProcess := m\<lparr>pdf_inputMode := ''test_desc'', pdf_input := pdf_testDesc m\<rparr>\<rparr>
         else a, NoCmd)
      else if key = ''enter'' \<or> key = '' '' then (a\<lparr>pdfProcess := m\<lparr>pdf_step := 2\<rparr>\<rparr>, NoCmd)
      else (a, NoCmd))"



section \<open>The custom-question wizard (tui/custom\_question.go)\<close>

definition NewCustomQuestionModel :: CustomQuestionModel where
  "NewCustomQuestionModel =
     \<lparr>cqm_step = 0, cqm_cursor = 0, cqm_inputMode = [], cqm_input = [], cqm_errorMsg = [],
      cqm_successMsg = [], cqm_testName = ''Custom Test'', cqm_testDesc = ''Custom created test'',
      cqm_currentQuestion =
        \<lparr>cq_text = [], cq_qType = ''multiple_choice'', cq_options = replicate 4 [],
         cq_correctAnswer = [], cq_explanation = []\<rparr>,
      cqm_questions = [],
      cqm_questionTypes = [''multiple_choice'', ''true_false'', ''short_answer''],
      cqm_typeIndex = 0, cqm_optionIndex = 0\<rparr>"

text \<open>The loop of \<open>saveCurrentQuestion\<close> that counts the options that are not blank.\<close>

fun countValidOptions :: "string list \<Rightarrow> int \<Rightarrow> int" where
  "countValidOptions [] validOptions = validOptions"
| "countValidOptions (opt # opts) validOptions =
     (if TrimSpace opt \<noteq> [] then countValidOptions opts (validOptions + 1)
      else countValidOptions opts validOptions)"

definition saveCurrentQuestion :: "App \<Rightarrow> App \<times> Cmd" where
  "saveCurrentQuestion a =
     (let m = customQuestion a; cq = cqm_currentQuestion m in
      if TrimSpace (cq_text cq) = [] then
        (a\<lparr>customQuestion := m\<lparr>cqm_errorMsg := ''Question text is required''\<rparr>\<rparr>, NoCmd)
      else if TrimSpace (cq_correctAnswer cq) = [] then
        (a\<lparr>customQuestion := m\<lparr>cqm_errorMsg := ''Correct answer is required''\<rparr>\<rparr>, NoCmd)
      else if cq_qType cq = ''multiple_choice'' \<and> countValidOptions (cq_options cq) 0 < 2 then
        (a\<lparr>customQuestion :=
             m\<lparr>cqm_errorMsg := ''Multiple choice questions need at least 2 options''\<rparr>\<rparr>, NoCmd)
      else
        (let question =
               \<lparr>QD_Text = TrimSpace (cq_text cq), QD_Type = cq_qType cq,
                QD_Options = cq_options cq,
                QD_CorrectAnswer = TrimSpace (cq_correctAnswer cq),
                QD_Explanation = TrimSpace (cq_explanation cq)\<rparr>;
             questions = cqm_questions m @ [question];
             cq' = cq\<lparr>cq_text := [], cq_correctAnswer := [], cq_explanation := [],
                      cq_options :=
                        (if cq_qType cq = ''multiple_choice'' then replicate 4 [] else [])\<rparr>
         in (a\<lparr>customQuestion :=
                  m\<lparr>cqm_questions := questions, cqm_currentQuestion := cq',
                    cqm_successMsg :=
                      ''Question saved! ('' @ itoa (int (length questions)) @ '' total)'',
                    cqm_cursor := 0\<rparr>\<rparr>, NoCmd)))"

section \<open>New application\<close>

text \<open>
  \<open>NewApp\<close> without the collaborators it opens. The file browser starts in the user's home
  directory, which the operating system supplies: the parameter \<open>homeDir\<close>.
\<close>

definition NewTestSelectionModel :: TestSelectionModel where
  "NewTestSelectionModel =
     \<lparr>ts_tests = [], ts_cursor = 0, ts_purpose = [], ts_errorMsg = [], ts_loading = False\<rparr>"

definition NewFileSelectionModel :: "string \<Rightarrow> FileSelectionModel" where
  "NewFileSelectionModel homeDir =
     \<lparr>fs_files = [], fs_cursor = 0, fs_currentDir = homeDir, fs_purpose = [], fs_errorMsg = [],
      fs_loading = False, fs_inputMode = False, fs_input = []\<rparr>"

definition NewApp :: "string \<Rightarrow> App" where
  "NewApp homeDir =
     \<lparr>currentView = MainMenuView, mainMenu = NewMainMenuModel, pdfProcess = NewPDFProcessModel,
      customQuestion = NewCustomQuestionModel, testSelection = NewTestSelectionModel,
      testTaking = NewTestTakingModel, fileSelection = NewFileSelectionModel homeDir,
      currentTest = None, currentQuestions = [], userAnswers = Map.empty\<rparr>"

section \<open>Text preview (package pdf)\<close>

text \<open>
  \<open>GetTextSummary\<close>. \<open>findBreak\<close> is its loop, started at \<open>i = maxLength\<close>: it returns the
  first index, going down, that holds a space, a full stop or a line feed, as long as
  \<open>i > maxLength - 50\<close> and \<open>i > 0\<close>. The loop is entered only when
  \<open>maxLength < len(text)\<close>, so \<open>text[i]\<close> is within range. The slice \<open>text[:breakPoint]\<close>
  panics when \<open>breakPoint\<close> is negative.
\<close>

definition isBreak :: "char \<Rightarrow> bool" where
  "isBreak c \<longleftrightarrow> c = CHR '' '' \<or> c = CHR ''.'' \<or> c = CHR 0x0A"

function findBreak :: "string \<Rightarrow> int \<Rightarrow> int \<Rightarrow> int option" where
  "findBreak text maxLength i =
     (if i > maxLength - 50 \<and> i > 0
      then (if isBreak (text ! nat i) then Some i else findBreak text maxLength (i - 1))
      else None)"
  by pat_completeness auto
termination
  by (relation "measure (\<lambda>(text, maxLength, i). nat i)") auto

declare findBreak.simps [simp del]

definition GetTextSummary :: "string \<Rightarrow> int \<Rightarrow> panic + string" where
  "GetTextSummary text maxLength =
     (if int (length text) \<le> maxLength then Inr text
      else (let breakPoint = (case findBreak text maxLength maxLength of
                                Some i \<Rightarrow> i | None \<Rightarrow> maxLength)
            in if breakPoint < 0 then Inl SliceOutOfRange
               else Inr (take (nat breakPoint) text @ ''...'')))"

section \<open>Questions in storage (package database)\<close>

text \<open>
  \<open>CreateQuestion\<close> writes the options of a question as one text and \<open>GetQuestion\<close> reads
  them back with \<open>json.Unmarshal\<close>. The storage engine (SQLite behind \<open>database/sql\<close>) and
  \<open>encoding/json\<close> are libraries, not code of the repository; what follows models the part
  of each that these two functions use.
\<close>

subsection \<open>UTF-8, as \<open>unicode/utf8\<close> decodes and encodes it\<close>

text \<open>
  \<open>utf8Size p\<close> is the width that \<open>utf8.DecodeRune\<close> reports for the first character of \<open>p\<close>,
  or 0 where it reports an encoding error: \<open>seqLen\<close> is the length that the first byte
  announces, \<open>acceptLo\<close> and \<open>acceptHi\<close> bound the second byte, and every further byte lies
  between 0x80 and 0xBF. \<open>EncodeRune\<close> writes a code point as UTF-8, and a surrogate or a
  value above 0x10FFFF as the replacement character U+FFFD.
\<close>

definition inRange :: "char \<Rightarrow> nat \<Rightarrow> nat \<Rightarrow> bool" where
  "inRange c lo hi \<longleftrightarrow> lo \<le> of_char c \<and> of_char c \<le> hi"

definition seqLen :: "nat \<Rightarrow> nat" where
  "seqLen b =
     (if b < 0x80 then 1 else if b < 0xC2 then 0 else if b < 0xE0 then 2
      else if b < 0xF0 then 3 else if b < 0xF5 then 4 else 0)"

definition acceptLo :: "nat \<Rightarrow> nat" where
  "acceptLo b = (if b = 0xE0 then 0xA0 else if b = 0xF0 then 0x90 else 0x80)"

definition acceptHi :: "nat \<Rightarrow> nat" where
  "acceptHi b = (if b = 0xED then 0x9F else if b = 0xF4 then 0x8F else 0xBF)"

definition utf8Size :: "string \<Rightarrow> nat" where
  "utf8Size p =
     (case p of
        [] \<Rightarrow> 0
      | p0 # _ \<Rightarrow>
          (let b = of_char p0; sz = seqLen b in
           if sz \<le> 1 then sz
           else if length p < sz then 0
           else if \<not> inRange (p ! 1) (acceptLo b) (acceptHi b) then 0
           else if sz \<le> 2 then 2
           else if \<not> inRange (p ! 2) 0x80 0xBF then 0
           else if sz \<le> 3 then 3
           else if \<not> inRange (p ! 3) 0x80 0xBF then 0
           else 4))"

definition replacementChar :: string where
  "replacementChar = [CHR 0xEF, CHR 0xBF, CHR 0xBD]"

definition EncodeRune :: "nat \<Rightarrow> string" where
  "EncodeRune r =
     (if r < 0x80 then [char_of r]
      else if r < 0x800 then [char_of (0xC0 + r div 64), char_of (0x80 + r mod 64)]
      else if (0xD800 \<le> r \<and> r < 0xE000) \<or> 0x10FFFF < r then replacementChar
      else if r < 0x10000 then
        [char_of (0xE0 + r div 4096), char_of (0x80 + r div 64 mod 64), char_of (0x80 + r mod 64)]
      else
        [char_of (0xF0 + r div 262144), char_of (0x80 + r div 4096 mod 64),
         char_of (0x80 + r div 64 mod 64), char_of (0x80 + r mod 64)])"

definition hexVal :: "char \<Rightarrow> nat option" where
  "hexVal c =
     (if inRange c 0x30 0x39 then Some (of_char c - 0x30)
      else if inRange c 0x61 0x66 then Some (of_char c - 0x61 + 10)
      else if inRange c 0x41 0x46 then Some (of_char c - 0x41 + 10)
      else None)"

definition getu4 :: "string \<Rightarrow> nat option" where
  "getu4 s =
     (case s of
        b # u # h1 # h2 # h3 # h4 # _ \<Rightarrow>
          (if b = CHR 0x5C \<and> u = CHR ''u'' then
             (case (hexVal h1, hexVal h2, hexVal h3, hexVal h4) of
                (Some a, Some b, Some c, Some d) \<Rightarrow> Some (((a * 16 + b) * 16 + c) * 16 + d)
              | _ \<Rightarrow> None)
           else None)
      | _ \<Rightarrow> None)"

definition simpleEscape :: "char \<Rightarrow> char option" where
  "simpleEscape e =
     (if e = CHR 0x22 \<or> e = CHR 0x5C \<or> e = CHR ''/'' then Some e
      else if e = CHR ''b'' then Some (CHR 0x08)
      else if e = CHR ''f'' then Some (CHR 0x0C)
      else if e = CHR ''n'' then Some (CHR 0x0A)
      else if e = CHR ''r'' then Some (CHR 0x0D)
      else if e = CHR ''t'' then Some (CHR 0x09)
      else None)"

subsection \<open>String literals of JSON\<close>

text \<open>
  \<open>decodeUnit\<close> decodes what stands at the head of the body of a string literal and returns
  the bytes it stands for and the rest of the input: an escape sequence (a \<open>\u\<close> escape may
  be the first half of a surrogate pair), a plain ASCII character, or a character encoded
  in UTF-8, where a byte that starts no valid encoding becomes U+FFFD. A control character
  below 0x20 and an unknown escape are errors. \<open>unquote\<close> decodes the body up to the closing
  quote and returns the text and the input after the quote.
\<close>

definition decodeUnit :: "string \<Rightarrow> (string \<times> string) option" where
  "decodeUnit x =
     (case x of
        [] \<Rightarrow> None
      | c # s \<Rightarrow>
          if c = CHR 0x5C then
            (case s of
               [] \<Rightarrow> None
             | e # s' \<Rightarrow>
                 if e = CHR ''u'' then
                   (case getu4 x of
                      None \<Rightarrow> None
                    | Some rr \<Rightarrow>
                        if 0xD800 \<le> rr \<and> rr < 0xE000 then
                          (case getu4 (drop 6 x) of
                             None \<Rightarrow> Some (replacementChar, drop 6 x)
                           | Some rr1 \<Rightarrow>
                               if rr < 0xDC00 \<and> 0xDC00 \<le> rr1 \<and> rr1 < 0xE000
                               then Some (EncodeRune
                                            ((rr - 0xD800) * 1024 + (rr1 - 0xDC00) + 0x10000),
                                          drop 12 x)
                               else Some (replacementChar, drop 6 x))
                        else Some (EncodeRune rr, drop 6 x))
                 else (case simpleEscape e of
                         None \<Rightarrow> None
                       | Some d \<Rightarrow> Some ([d], s')))
          else if (of_char c :: nat) < 0x20 then None
          else if (of_char c :: nat) < 0x80 then Some ([c], s)
          else (let n = utf8Size x in
                if n = 0 then Some (replacementChar, s) else Some (take n x, drop n x)))"

lemma seqLen_le: "seqLen b \<le> 4"
  by (simp add: seqLen_def)

lemma seqLen_ascii: "seqLen b = 1 \<longleftrightarrow> b < 0x80"
  by (simp add: seqLen_def)

lemma utf8Size_le: "utf8Size x \<le> length x"
proof (cases x)
  case Nil
  then show ?thesis by (simp add: utf8Size_def)
next
  case (Cons c s)
  then show ?thesis
    using seqLen_le [of "of_char c"] by (auto simp add: utf8Size_def Let_def)
qed

lemma utf8Size_ascii: "(of_char c :: nat) < 0x80 \<Longrightarrow> utf8Size (c # s) = 1"
  by (simp add: utf8Size_def Let_def seqLen_def)

lemma utf8Size_pos_ge:
  assumes "0x80 \<le> (of_char c :: nat)" and "utf8Size (c # s) \<noteq> 0"
  shows "2 \<le> utf8Size (c # s)"
proof -
  have "seqLen (of_char c) \<noteq> 1" using assms(1) seqLen_ascii [of "of_char c"] by simp
  with assms(2) show ?thesis
    by (auto simp add: utf8Size_def Let_def split: if_splits)
qed

lemma utf8Size_append:
  assumes "utf8Size x \<noteq> 0"
  shows "utf8Size (x @ y) = utf8Size x"
proof (cases x)
  case Nil
  with assms show ?thesis by (simp add: utf8Size_def)
next
  case (Cons c s)
  let ?sz = "seqLen (of_char c)"
  show ?thesis
  proof (cases "?sz \<le> 1")
    case True
    with Cons show ?thesis by (simp add: utf8Size_def Let_def)
  next
    case False
    with assms Cons have len: "?sz \<le> length x"
      by (auto simp add: utf8Size_def Let_def split: if_splits)
    have sz: "?sz \<le> 4" by (rule seqLen_le)
    from False sz consider "?sz = 2" | "?sz = 3" | "?sz = 4" by linarith
    then show ?thesis
    proof cases
      case 1
      with len Cons obtain c1 s1 where "s = c1 # s1" by (cases s) auto
      with 1 Cons show ?thesis by (simp add: utf8Size_def Let_def)
    next
      case 2
      with len Cons obtain c1 c2 s2 where "s = c1 # c2 # s2"
        by (cases s; cases "tl s") auto
      with 2 Cons show ?thesis by (simp add: utf8Size_def Let_def)
    next
      case 3
      with len Cons obtain c1 c2 c3 s3 where "s = c1 # c2 # c3 # s3"
        by (cases s; cases "tl s"; cases "tl (tl s)") auto
      with 3 Cons show ?thesis by (simp add: utf8Size_def Let_def)
    qed
  qed
qed

lemma decodeUnit_shorter:
  assumes "decodeUnit x = Some (bs, rest)"
  shows "length rest < length x"
proof (cases x)
  case Nil
  with assms show ?thesis by (simp add: decodeUnit_def)
next
  case (Cons c s)
  show ?thesis
  proof (cases "c = CHR 0x5C")
    case True
    with assms Cons show ?thesis
      by (auto simp add: decodeUnit_def split: list.splits option.splits if_splits)
  next
    case False
    show ?thesis
    proof (cases "(of_char c :: nat) < 0x80")
      case True
      with assms Cons False show ?thesis
        by (auto simp add: decodeUnit_def split: if_splits)
    next
      case hi: False
      then have "utf8Size (c # s) \<noteq> 0 \<Longrightarrow> 2 \<le> utf8Size (c # s)"
        by (intro utf8Size_pos_ge) simp_all
      with assms Cons False hi show ?thesis
        by (auto simp add: decodeUnit_def Let_def split: if_splits)
    qed
  qed
qed

function unquote :: "string \<Rightarrow> (string \<times> string) option" where
  "unquote s =
     (case s of
        [] \<Rightarrow> None
      | c # s' \<Rightarrow>
          if c = CHR 0x22 then Some ([], s')
          else (case decodeUnit s of
                  None \<Rightarrow> None
                | Some (bs, rest) \<Rightarrow>
                    (case unquote rest of
                       None \<Rightarrow> None
                     | Some (t, r) \<Rightarrow> Some (bs @ t, r))))"
  by pat_completeness auto
termination
  by (relation "measure length") (auto dest: decodeUnit_shorter)

declare unquote.simps [simp del]


lemma unquote_shorter: "unquote s = Some (t, r) \<Longrightarrow> length r < length s"
proof (induction s arbitrary: t r rule: unquote.induct)
  case (1 s)
  show ?case
  proof (cases s)
    case Nil
    with "1.prems" show ?thesis by (simp add: unquote.simps)
  next
    case (Cons c s')
    show ?thesis
    proof (cases "c = CHR 0x22")
      case True
      with "1.prems" Cons show ?thesis by (simp add: unquote.simps)
    next
      case False
      with "1.prems" Cons obtain bs rest t' where
        d: "decodeUnit s = Some (bs, rest)" and u: "unquote rest = Some (t', r)"
        by (subst (asm) unquote.simps) (auto split: option.splits)
      from "1.IH" [OF Cons False d refl u] decodeUnit_shorter [OF d] show ?thesis by simp
    qed
  qed
qed

subsection \<open>\<open>json.Unmarshal\<close> into a slice of strings\<close>

text \<open>
  The elements of the array are string literals or \<open>null\<close>, which leaves the element empty;
  white space may surround every token. Any other input is an error (\<open>None\<close>): it is either
  no JSON at all or holds a value that is no string, which \<open>Unmarshal\<close> reports as a type
  error. A top-level \<open>null\<close> leaves the slice as it was, without elements.
\<close>

definition isJSONSpace :: "char \<Rightarrow> bool" where
  "isJSONSpace c \<longleftrightarrow> c = CHR '' '' \<or> c = CHR 0x09 \<or> c = CHR 0x0D \<or> c = CHR 0x0A"

definition skipWS :: "string \<Rightarrow> string" where
  "skipWS s = dropWhile isJSONSpace s"

definition parseValue :: "string \<Rightarrow> (string \<times> string) option" where
  "parseValue s =
     (case s of
        [] \<Rightarrow> None
      | c # s' \<Rightarrow>
          if c = CHR 0x22 then unquote s'
          else if take 4 s = ''null'' then Some ([], drop 4 s)
          else None)"

lemma parseValue_shorter: "parseValue s = Some (t, r) \<Longrightarrow> length r < length s"
  by (auto simp add: parseValue_def split: list.splits if_splits dest!: unquote_shorter)

lemma skipWS_length: "length (skipWS s) \<le> length s"
  by (simp add: skipWS_def length_dropWhile_le)

function parseElems :: "string \<Rightarrow> (string list \<times> string) option" where
  "parseElems s =
     (case parseValue s of
        None \<Rightarrow> None
      | Some (t, r) \<Rightarrow>
          (case skipWS r of
             [] \<Rightarrow> None
           | c # r' \<Rightarrow>
               if c = CHR '','' then
                 (case parseElems (skipWS r') of
                    None \<Rightarrow> None
                  | Some (ts, rest) \<Rightarrow> Some (t # ts, rest))
               else if c = CHR '']'' then Some ([t], r')
               else None))"
  by pat_completeness auto
termination
proof (relation "measure length", goal_cases)
  case 1
  show ?case by simp
next
  case (2 s x t r c r')
  from 2 have "length r < length s" by (auto dest: parseValue_shorter)
  moreover have "length (skipWS r') \<le> length r'" by (rule skipWS_length)
  moreover from 2 have "length (c # r') \<le> length r" using skipWS_length [of r] by simp
  ultimately show ?case by simp
qed

declare parseElems.simps [simp del]

definition Unmarshal :: "string \<Rightarrow> string list option" where
  "Unmarshal data =
     (case skipWS data of
        [] \<Rightarrow> None
      | c # r \<Rightarrow>
          if c = CHR ''['' then
            (case skipWS r of
               [] \<Rightarrow> None
             | c' # r' \<Rightarrow>
                 if c' = CHR '']'' then (if skipWS r' = [] then Some [] else None)
                 else (case parseElems (c' # r') of
                         None \<Rightarrow> None
                       | Some (ts, rest) \<Rightarrow> if skipWS rest = [] then Some ts else None))
          else if take 4 (c # r) = ''null'' \<and> skipWS (drop 4 (c # r)) = [] then Some []
          else None)"

subsection \<open>The table of questions\<close>

text \<open>
  The table, from the schema that \<open>createTables\<close> declares: the id is \<open>AUTOINCREMENT\<close>, so a
  new row gets an id above every id in the table and above the last one given out; the
  question type is checked against the three known types; the options are a text column
  that holds the bytes it was given. Foreign keys are not enforced, since the connection
  never switches them on. A row is a \<open>QuestionRow\<close>, again without the time stamp.
\<close>

record QuestionRow =
  row_id :: int
  row_test_id :: int
  row_question_text :: string
  row_question_type :: string
  row_options :: string
  row_correct_answer :: string
  row_explanation :: string

record DB =
  db_questions :: "QuestionRow list"
  db_sequence :: int

definition insertQuestion ::
  "DB \<Rightarrow> int \<Rightarrow> string \<Rightarrow> string \<Rightarrow> string \<Rightarrow> string \<Rightarrow> string \<Rightarrow> string + DB \<times> int" where
  "insertQuestion db testID questionText questionType optionsJSON correctAnswer explanation =
     (if questionType \<notin> {''multiple_choice'', ''true_false'', ''short_answer''}
      then Inl ''CHECK constraint failed''
      else (let newID = Max (insert (db_sequence db) (row_id ` set (db_questions db))) + 1;
                row = \<lparr>row_id = newID, row_test_id = testID, row_question_text = questionText,
                       row_question_type = questionType, row_options = optionsJSON,
                       row_correct_answer = correctAnswer, row_explanation = explanation\<rparr>
            in Inr (db\<lparr>db_questions := db_questions db @ [row], db_sequence := newID\<rparr>, newID)))"

text \<open>
  The encoding of the options in \<open>CreateQuestion\<close>: the options joined by \<open>","\<close> between
  \<open>["\<close> and \<open>"]\<close>, nothing escaped; no text at all for no options. \<open>encodeLoop\<close> is the loop
  over the second and later options.
\<close>

definition separator :: string where
  "separator = [CHR 0x22, CHR '','', CHR 0x22]"

fun encodeLoop :: "string list \<Rightarrow> string \<Rightarrow> string" where
  "encodeLoop [] optionsJSON = optionsJSON"
| "encodeLoop (opt # opts) optionsJSON =
     encodeLoop opts (optionsJSON @ separator @ opt)"

definition encodeOptions :: "string list \<Rightarrow> string" where
  "encodeOptions options =
     (case options of
        [] \<Rightarrow> []
      | opt # opts \<Rightarrow> encodeLoop opts ([CHR ''['', CHR 0x22] @ opt) @ [CHR 0x22, CHR '']''])"

text \<open>
  \<open>scanQuestion\<close> is what \<open>GetQuestion\<close> and \<open>GetQuestionsByTestID\<close> do with a row: the columns
  are copied, and the options are parsed when their text is not empty; a parse error gives
  no options. \<open>GetQuestionsByTestID\<close> returns the rows of a test in the order of their ids;
  its query itself does not fail in this model.
\<close>

definition scanQuestion :: "QuestionRow \<Rightarrow> Question" where
  "scanQuestion row =
     \<lparr>ID = row_id row, TestID = row_test_id row, QuestionText = row_question_text row,
      QuestionType = row_question_type row,
      Options =
        (if row_options row \<noteq> [] then
           (case Unmarshal (row_options row) of None \<Rightarrow> [] | Some opts \<Rightarrow> opts)
         else []),
      CorrectAnswer = row_correct_answer row, Explanation = row_explanation row\<rparr>"

definition GetQuestion :: "DB \<Rightarrow> int \<Rightarrow> string + Question" where
  "GetQuestion db qid =
     (case find (\<lambda>row. row_id row = qid) (db_questions db) of
        None \<Rightarrow> Inl ''failed to get question: sql: no rows in result set''
      | Some row \<Rightarrow> Inr (scanQuestion row))"

definition GetQuestionsByTestID :: "DB \<Rightarrow> int \<Rightarrow> Question list" where
  "GetQuestionsByTestID db testID =
     map scanQuestion
       (sort_key row_id (filter (\<lambda>row. row_test_id row = testID) (db_questions db)))"

definition CreateQuestion ::
  "DB \<Rightarrow> int \<Rightarrow> string \<Rightarrow> string \<Rightarrow> string \<Rightarrow> string \<Rightarrow> string list \<Rightarrow> DB \<times> (string + Question)" where
  "CreateQuestion db testID questionText questionType correctAnswer explanation options =
     (let optionsJSON = encodeOptions options in
      case insertQuestion db testID questionText questionType optionsJSON correctAnswer explanation of
        Inl err \<Rightarrow> (db, Inl (''failed to create question: '' @ err))
      | Inr (db', newID) \<Rightarrow> (db', GetQuestion db' newID))"

text \<open>
  \<open>jsonSafe\<close>: a text that is valid UTF-8 and holds no double quote, no backslash and no
  control character below 0x20.
\<close>

function jsonSafe :: "string \<Rightarrow> bool" where
  "jsonSafe s =
     (case s of
        [] \<Rightarrow> True
      | c # s' \<Rightarrow>
          if c = CHR 0x22 \<or> c = CHR 0x5C \<or> (of_char c :: nat) < 0x20 \<or> utf8Size s = 0 then False
          else jsonSafe (drop (utf8Size s) s))"
  by pat_completeness auto
termination
  by (relation "measure length") auto

declare jsonSafe.simps [simp del]

text \<open>The table after \<open>createTables\<close>, with an option that holds a tab.\<close>

definition emptyDB :: DB where
  "emptyDB = \<lparr>db_questions = [], db_sequence = 0\<rparr>"

definition tabOption :: string where
  "tabOption = ''re'' @ [CHR 0x09] @ ''d''"

section \<open>Example sessions\<close>

text \<open>
  Concrete inputs, used where a statement is evaluated: a test of four questions with three
  answers given, a test of twenty questions with eleven answers given, a session taking a
  one-question test, that session at its result screen, a storage call that fails and one
  that succeeds, a session confirming a number of questions, and a session saving a custom
  question with given options.
\<close>

definition exampleQuestions :: "Question list" where
  "exampleQuestions =
     [\<lparr>ID = 1, TestID = 7, QuestionText = ''Pick one'', QuestionType = ''multiple_choice'',
       Options = [''red'', ''green''], CorrectAnswer = ''A'', Explanation = []\<rparr>,
      \<lparr>ID = 2, TestID = 7, QuestionText = ''Snow is white'', QuestionType = ''true_false'',
       Options = [], CorrectAnswer = ''True'', Explanation = []\<rparr>,
      \<lparr>ID = 3, TestID = 7, QuestionText = ''Capital of France'', QuestionType = ''short_answer'',
       Options = [], CorrectAnswer = '' Paris'', Explanation = []\<rparr>,
      \<lparr>ID = 4, TestID = 7, QuestionText = ''Capital of Spain'', QuestionType = ''short_answer'',
       Options = [], CorrectAnswer = ''Madrid'', Explanation = []\<rparr>]"

definition exampleAnswers :: "int \<rightharpoonup> string" where
  "exampleAnswers = [1 \<mapsto> ''A'', 2 \<mapsto> ''true'', 3 \<mapsto> ''paris'']"

definition twentyQuestions :: "Question list" where
  "twentyQuestions =
     map (\<lambda>i. \<lparr>ID = i, TestID = 7, QuestionText = ''Pick one'',
                QuestionType = ''multiple_choice'', Options = [''red'', ''green''],
                CorrectAnswer = ''A'', Explanation = []\<rparr>)
       [1, 2, 3, 4, 5, 6, 7, 8, 9, 10, 11, 12, 13, 14, 15, 16, 17, 18, 19, 20]"

definition elevenAnswers :: "int \<rightharpoonup> string" where
  "elevenAnswers i = (if 1 \<le> i \<and> i \<le> 11 then Some ''A'' else None)"

definition mcQuestion :: Question where
  "mcQuestion =
     \<lparr>ID = 1, TestID = 7, QuestionText = ''Pick one'', QuestionType = ''multiple_choice'',
      Options = [''red'', ''green''], CorrectAnswer = ''a'', Explanation = []\<rparr>"

definition mcApp :: App where
  "mcApp =
     (NewApp ''/home/u'')
       \<lparr>currentView := TestTakingView,
        currentTest := Some \<lparr>Test_ID = 7, Test_Name = ''Colours'', Test_Description = []\<rparr>,
        currentQuestions := [mcQuestion]\<rparr>"


definition resultApp :: App where
  "resultApp =
     mcApp\<lparr>userAnswers := [1 \<mapsto> ''A''],
           testTaking := NewTestTakingModel\<lparr>tt_showResult := True\<rparr>\<rparr>"

definition failingSave :: SaveTestResult where
  "failingSave testID score totalQuestions correctAnswers timeTaken = Inl ''database is locked''"

definition workingSave :: SaveTestResult where
  "workingSave testID score totalQuestions correctAnswers timeTaken =
     Inr \<lparr>TR_ID = 1, TR_TestID = testID, TR_Score = score, TR_TotalQuestions = totalQuestions,
          TR_CorrectAnswers = correctAnswers, TR_TimeTaken = timeTaken\<rparr>"


definition customApp :: "string list \<Rightarrow> App" where
  "customApp opts =
     (NewApp ''/home/u'')
       \<lparr>currentView := CustomQuestionView,
        customQuestion := NewCustomQuestionModel
          \<lparr>cqm_step := 1,
           cqm_currentQuestion :=
             \<lparr>cq_text = ''Which colour is the sky?'', cq_qType = ''multiple_choice'',
              cq_options = opts, cq_correctAnswer = ''A'', cq_explanation = []\<rparr>\<rparr>\<rparr>"

section \<open>Evaluation rules and string lemmas\<close>

lemmas string_eval = TrimSpace_def isSpace_def ToLower_def lowerChar_def char_of_def bit_Suc_0_iff


lemmas app_eval = NewApp_def NewMainMenuModel_def NewPDFProcessModel_def NewCustomQuestionModel_def
  NewTestSelectionModel_def NewTestTakingModel_def NewFileSelectionModel_def





section \<open>Rounding errors\<close>

lemma bitlen_bounds: "0 < n \<Longrightarrow> 2 ^ (bitlen n - 1) \<le> n \<and> n < 2 ^ bitlen n"
proof (induction n rule: bitlen.induct)
  case (1 n)
  show ?case
  proof (cases "n = 1")
    case True
    then show ?thesis by (simp add: bitlen.simps)
  next
    case False
    with "1.prems" have h: "0 < n div 2" by simp
    from "1.prems" have b: "bitlen n = Suc (bitlen (n div 2))" by (subst bitlen.simps) simp
    from h have p: "0 < bitlen (n div 2)" by (subst bitlen.simps) simp
    from "1.IH" h "1.prems" have ih: "2 ^ (bitlen (n div 2) - 1) \<le> n div 2" "n div 2 < 2 ^ bitlen (n div 2)"
      by simp_all
    from p have e: "(2::int) ^ bitlen (n div 2) = 2 * 2 ^ (bitlen (n div 2) - 1)"
      by (cases "bitlen (n div 2)") simp_all
    have "2 * (n div 2) \<le> n" "n < 2 * (n div 2) + 2" by simp_all
    with ih e show ?thesis unfolding b by simp
  qed
qed

lemma pow2_powr: "pow2 e = 2 powr (real_of_int e)"
  by (simp add: pow2_def powr_int)

lemma pow2_pos [simp]: "0 < pow2 e"
  by (simp add: pow2_powr)

lemma pow2_nonneg [simp]: "0 \<le> pow2 e"
  by (rule less_imp_le) (rule pow2_pos)

lemma pow2_add: "pow2 (a + b) = pow2 a * pow2 b"
  by (simp add: pow2_powr powr_add)

lemma pow2_diff: "pow2 (a - b) = pow2 a / pow2 b"
  by (simp add: pow2_powr powr_diff)

lemma pow2_nat: "pow2 (int n) = 2 ^ n"
  by (simp add: pow2_def)

lemma pow2_numeral [simp]: "pow2 0 = 1" "pow2 1 = 2" "pow2 (- 1) = 1 / 2"
  by (simp_all add: pow2_def)

lemma valof_pair: "valof (m, e) = real_of_int m * pow2 e"
  by (simp add: valof_def)

lemma bitlen_Suc:
  assumes "0 < n"
  obtains l where "bitlen n = Suc l" and "2 ^ l \<le> n" and "n < 2 * 2 ^ l"
proof -
  from assms have "0 < bitlen n" by (subst bitlen.simps) simp
  then obtain l where l: "bitlen n = Suc l" by (cases "bitlen n") auto
  with bitlen_bounds [OF assms] have "2 ^ l \<le> n" "n < 2 * 2 ^ l" by simp_all
  with l that show thesis by blast
qed

lemma real_pow2_le: "(2::int) ^ l \<le> n \<Longrightarrow> pow2 (int l) \<le> real_of_int n"
proof -
  assume "(2::int) ^ l \<le> n"
  then have "real_of_int (2 ^ l) \<le> real_of_int n" by (rule of_int_le_iff [THEN iffD2])
  then show ?thesis by (simp add: pow2_nat)
qed

lemma real_pow2_less: "n < 2 * (2::int) ^ l \<Longrightarrow> real_of_int n < pow2 (int l + 1)"
proof -
  assume "n < 2 * (2::int) ^ l"
  then have "real_of_int n < real_of_int (2 * 2 ^ l)" by (rule of_int_less_iff [THEN iffD2])
  then show ?thesis by (simp add: pow2_add pow2_nat)
qed

lemma ilogb_bounds:
  assumes "0 < a" and "0 < b"
  shows "pow2 (ilogb a b) \<le> real_of_int a / real_of_int b \<and>
         real_of_int a / real_of_int b < pow2 (ilogb a b + 1)"
proof -
  let ?x = "real_of_int a / real_of_int b"
  from assms(1) obtain la where la: "bitlen a = Suc la" "2 ^ la \<le> a" "a < 2 * 2 ^ la"
    by (rule bitlen_Suc)
  from assms(2) obtain lb where lb: "bitlen b = Suc lb" "2 ^ lb \<le> b" "b < 2 * 2 ^ lb"
    by (rule bitlen_Suc)
  define k where "k = int la - int lb"
  have k: "int (bitlen a) - int (bitlen b) = k" by (simp add: la(1) lb(1) k_def)
  have ra: "pow2 (int la) \<le> real_of_int a" "real_of_int a < pow2 (int la + 1)"
    using la(2,3) by (simp_all add: real_pow2_le real_pow2_less)
  have rb: "pow2 (int lb) \<le> real_of_int b" "real_of_int b < pow2 (int lb + 1)"
    using lb(2,3) by (simp_all add: real_pow2_le real_pow2_less)
  have bpos: "0 < real_of_int b" and apos: "0 < real_of_int a" using assms by simp_all
  have up: "?x < pow2 (k + 1)"
  proof -
    have "?x < pow2 (int la + 1) / pow2 (int lb)"
      using ra(2) rb(1) apos bpos by (intro frac_less) simp_all
    also have "\<dots> = pow2 (k + 1)"
      unfolding k_def pow2_diff [symmetric] by (simp add: algebra_simps)
    finally show ?thesis .
  qed
  have lo: "pow2 (k - 1) < ?x"
  proof -
    have "pow2 (int la) / pow2 (int lb + 1) < ?x"
      using ra(1) rb(2) bpos by (intro frac_less2) simp_all
    moreover have "pow2 (int la) / pow2 (int lb + 1) = pow2 (k - 1)"
      unfolding k_def pow2_diff [symmetric] by (simp add: algebra_simps)
    ultimately show ?thesis by simp
  qed
  have cmp: "(if k \<ge> 0 then b * 2 ^ nat k \<le> a else b \<le> a * 2 ^ nat (- k)) \<longleftrightarrow> pow2 k \<le> ?x"
  proof (cases "k \<ge> 0")
    case True
    have "real_of_int (b * 2 ^ nat k) = real_of_int b * 2 ^ nat k" by simp
    then have "b * 2 ^ nat k \<le> a \<longleftrightarrow> real_of_int b * 2 ^ nat k \<le> real_of_int a"
      by (metis of_int_le_iff)
    also have "\<dots> \<longleftrightarrow> 2 ^ nat k \<le> ?x" using bpos by (simp add: field_simps)
    finally show ?thesis using True by (simp add: pow2_def)
  next
    case False
    have "real_of_int (a * 2 ^ nat (- k)) = real_of_int a * 2 ^ nat (- k)" by simp
    then have "b \<le> a * 2 ^ nat (- k) \<longleftrightarrow> real_of_int b \<le> real_of_int a * 2 ^ nat (- k)"
      by (metis of_int_le_iff)
    also have "\<dots> \<longleftrightarrow> 1 / 2 ^ nat (- k) \<le> ?x" using bpos by (simp add: field_simps)
    finally show ?thesis using False by (simp add: pow2_def)
  qed
  show ?thesis
  proof (cases "pow2 k \<le> ?x")
    case True
    then have "ilogb a b = k" using cmp by (simp add: ilogb_def k Let_def)
    with True up show ?thesis by simp
  next
    case False
    then have "ilogb a b = k - 1" using cmp by (simp add: ilogb_def k Let_def)
    with False lo show ?thesis by simp
  qed
qed

lemma roundHalfEven_err:
  assumes "0 < d"
  shows "\<bar>real_of_int (roundHalfEven n d) - real_of_int n / real_of_int d\<bar> \<le> 1 / 2"
proof -
  define q r where "q = n div d" and "r = n mod d"
  have r: "0 \<le> r" "r < d" using assms by (simp_all add: r_def)
  have "n = d * q + r" by (simp add: q_def r_def)
  then have "real_of_int n = real_of_int d * real_of_int q + real_of_int r"
    by (metis of_int_add of_int_mult)
  then have x: "real_of_int n / real_of_int d = real_of_int q + real_of_int r / real_of_int d"
    using assms by (simp add: field_simps)
  have dpos: "0 < real_of_int d" using assms by simp
  consider "2 * r < d" | "d < 2 * r" | "2 * r = d" by linarith
  then show ?thesis
  proof cases
    case 1
    then have "roundHalfEven n d = q" by (simp add: roundHalfEven_def q_def r_def Let_def)
    moreover have "2 * real_of_int r < real_of_int d" using 1 by linarith
    then have "real_of_int r / real_of_int d < 1 / 2" using dpos by (simp add: field_simps)
    moreover have "0 \<le> real_of_int r / real_of_int d" using r(1) dpos by simp
    ultimately show ?thesis unfolding x by simp
  next
    case 2
    then have "roundHalfEven n d = q + 1" by (simp add: roundHalfEven_def q_def r_def Let_def)
    moreover have "real_of_int d < 2 * real_of_int r" using 2 by linarith
    then have "1 / 2 < real_of_int r / real_of_int d" using dpos by (simp add: field_simps)
    moreover have "real_of_int r / real_of_int d < 1" using r(2) dpos by simp
    ultimately show ?thesis unfolding x by simp
  next
    case 3
    then have "roundHalfEven n d = q \<or> roundHalfEven n d = q + 1"
      by (simp add: roundHalfEven_def q_def r_def Let_def)
    moreover have "real_of_int d = 2 * real_of_int r" using 3 by linarith
    then have "real_of_int r / real_of_int d = 1 / 2" using dpos by (simp add: field_simps)
    ultimately show ?thesis unfolding x by auto
  qed
qed

lemma roundRatio_cases:
  assumes "0 < a" and "0 < b"
  obtains m e where "roundRatio a b = (m, e)"
    and "\<bar>real_of_int m - real_of_int a / real_of_int b / pow2 e\<bar> \<le> 1 / 2"
    and "2 ^ 52 \<le> real_of_int a / real_of_int b / pow2 e"
proof -
  define e where "e = ilogb a b - 52"
  let ?x = "real_of_int a / real_of_int b"
  have "pow2 (e + 52) \<le> ?x" using ilogb_bounds [OF assms] by (simp add: e_def)
  moreover have "pow2 (e + 52) = pow2 e * pow2 52" by (rule pow2_add)
  moreover have "pow2 52 = 2 ^ 52" by (simp add: pow2_def)
  ultimately have "2 ^ 52 * pow2 e \<le> ?x" by (simp add: mult.commute)
  moreover have p: "0 < pow2 e" by (rule pow2_pos)
  ultimately have big: "2 ^ 52 \<le> ?x / pow2 e" by (simp only: pos_le_divide_eq)
  show thesis
  proof (cases "e \<ge> 0")
    case True
    let ?m = "roundHalfEven a (b * 2 ^ nat e)"
    have rr: "roundRatio a b = (?m, e)"
      using assms True by (simp add: roundRatio_def e_def Let_def)
    have "0 < b * 2 ^ nat e" using assms by simp
    then have h: "\<bar>real_of_int ?m - real_of_int a / real_of_int (b * 2 ^ nat e)\<bar> \<le> 1 / 2"
      by (rule roundHalfEven_err)
    have "real_of_int (b * 2 ^ nat e) = real_of_int b * pow2 e"
      using True by (simp add: pow2_def)
    then have eq: "real_of_int a / real_of_int (b * 2 ^ nat e) = ?x / pow2 e"
      by (simp only: divide_divide_eq_left)
    from h have "\<bar>real_of_int ?m - ?x / pow2 e\<bar> \<le> 1 / 2" unfolding eq .
    with rr show thesis using big by (rule that)
  next
    case False
    let ?m = "roundHalfEven (a * 2 ^ nat (- e)) b"
    have rr: "roundRatio a b = (?m, e)"
      using assms False by (simp add: roundRatio_def e_def Let_def)
    have h: "\<bar>real_of_int ?m - real_of_int (a * 2 ^ nat (- e)) / real_of_int b\<bar> \<le> 1 / 2"
      using assms(2) by (rule roundHalfEven_err)
    have "real_of_int (a * 2 ^ nat (- e)) = real_of_int a / pow2 e"
      using False by (simp add: pow2_def)
    then have eq: "real_of_int (a * 2 ^ nat (- e)) / real_of_int b = ?x / pow2 e"
      by (simp only: divide_divide_eq_left mult.commute)
    from h have "\<bar>real_of_int ?m - ?x / pow2 e\<bar> \<le> 1 / 2" unfolding eq .
    with rr show thesis using big by (rule that)
  qed
qed

lemma roundRatio_err:
  assumes "0 < a" and "0 < b"
  shows "\<bar>valof (roundRatio a b) - real_of_int a / real_of_int b\<bar>
           \<le> real_of_int a / real_of_int b / 2 ^ 53"
    and "0 < fst (roundRatio a b)"
proof -
  let ?x = "real_of_int a / real_of_int b"
  from assms obtain m e where rr: "roundRatio a b = (m, e)"
    and err: "\<bar>real_of_int m - ?x / pow2 e\<bar> \<le> 1 / 2"
    and big: "2 ^ 52 \<le> ?x / pow2 e"
    by (rule roundRatio_cases)
  have ne: "pow2 e \<noteq> 0" by (metis less_irrefl pow2_pos)
  have "(real_of_int m - ?x / pow2 e) * pow2 e = real_of_int m * pow2 e - ?x"
    using ne by (simp add: left_diff_distrib)
  then have "valof (roundRatio a b) - ?x = (real_of_int m - ?x / pow2 e) * pow2 e"
    by (simp only: rr valof_pair)
  then have "\<bar>valof (roundRatio a b) - ?x\<bar> = \<bar>real_of_int m - ?x / pow2 e\<bar> * \<bar>pow2 e\<bar>"
    by (simp only: abs_mult)
  also have "\<bar>pow2 e\<bar> = pow2 e" by (rule abs_of_pos) (rule pow2_pos)
  finally have "\<bar>valof (roundRatio a b) - ?x\<bar> = \<bar>real_of_int m - ?x / pow2 e\<bar> * pow2 e" .
  also have "\<dots> \<le> 1 / 2 * pow2 e" using err pow2_nonneg [of e] by (rule mult_right_mono)
  also have "\<dots> \<le> ?x / 2 ^ 53"
  proof -
    have "0 < pow2 e" by (rule pow2_pos)
    with big have "2 ^ 52 * pow2 e \<le> ?x" by (simp only: pos_le_divide_eq)
    then show ?thesis by simp
  qed
  finally show "\<bar>valof (roundRatio a b) - ?x\<bar> \<le> ?x / 2 ^ 53" .
  have "(1::real) \<le> 2 ^ 52" by simp
  with err big have "0 < real_of_int m" by linarith
  then show "0 < fst (roundRatio a b)" by (simp add: rr)
qed

lemma ofInt_exact:
  assumes "0 \<le> n" and "n < 2 ^ 53"
  shows "valof (ofInt n) = real_of_int n" and "0 \<le> fst (ofInt n)" and "0 < n \<Longrightarrow> 0 < fst (ofInt n)"
proof -
  have "valof (ofInt n) = real_of_int n \<and> 0 \<le> fst (ofInt n) \<and> (0 < n \<longrightarrow> 0 < fst (ofInt n))"
  proof (cases "n = 0")
    case True
    then show ?thesis by (simp add: ofInt_def roundRatio_def valof_pair)
  next
    case False
    with assms(1) have pos: "0 < n" by simp
    then obtain l where l: "bitlen n = Suc l" "2 ^ l \<le> n" "n < 2 * 2 ^ l" by (rule bitlen_Suc)
    have one: "bitlen 1 = Suc 0" by (simp add: bitlen.simps)
    have il: "ilogb n 1 = int l" using l by (simp add: ilogb_def one Let_def)
    have "(2::int) ^ l < 2 ^ 53" using l(2) assms(2) by linarith
    then have l53: "l < 53" using power_less_imp_less_exp [of "2::int" l 53] by simp
    then have e: "\<not> (int l - 52 \<ge> 0) \<or> l = 52" by linarith
    have m: "roundHalfEven k 1 = k" for k by (simp add: roundHalfEven_def)
    show ?thesis
    proof (cases "l = 52")
      case True
      then have "roundRatio n 1 = (n, 0)" using pos il by (simp add: roundRatio_def m)
      then show ?thesis using pos by (simp add: ofInt_def valof_pair)
    next
      case False
      with l53 have neg: "\<not> (int l - 52 \<ge> 0)" by linarith
      then have "roundRatio n 1 = (n * 2 ^ nat (52 - int l), int l - 52)"
        using pos il by (simp add: roundRatio_def m Let_def)
      then show ?thesis using pos neg by (simp add: ofInt_def valof_pair pow2_def)
    qed
  qed
  then show "valof (ofInt n) = real_of_int n" and "0 \<le> fst (ofInt n)"
    and "0 < n \<Longrightarrow> 0 < fst (ofInt n)" by simp_all
qed

lemma fdiv_err:
  assumes "0 \<le> fst x" and "0 < fst y"
  shows "\<bar>valof (fdiv x y) - valof x / valof y\<bar> \<le> valof x / valof y / 2 ^ 53"
    and "0 \<le> fst (fdiv x y)"
proof -
  obtain m1 e1 m2 e2 where x: "x = (m1, e1)" and y: "y = (m2, e2)" by (cases x, cases y) blast
  from assms have m1: "0 \<le> m1" and m2: "0 < m2" by (simp_all add: x y)
  obtain m e where rr: "roundRatio m1 m2 = (m, e)" by (cases "roundRatio m1 m2") blast
  define s where "s = pow2 e1 / pow2 e2"
  have spos: "0 < s" by (simp add: s_def)
  have fd: "valof (fdiv x y) = valof (roundRatio m1 m2) * s"
    by (simp add: fdiv_def x y rr valof_pair s_def pow2_add pow2_diff)
  have m2r: "real_of_int m2 \<noteq> 0" using m2 by simp
  have q: "valof x / valof y = real_of_int m1 / real_of_int m2 * s"
    by (simp add: x y valof_pair s_def)
  have "\<bar>valof (roundRatio m1 m2) - real_of_int m1 / real_of_int m2\<bar>
          \<le> real_of_int m1 / real_of_int m2 / 2 ^ 53 \<and> 0 \<le> fst (roundRatio m1 m2)"
  proof (cases "m1 = 0")
    case True
    then show ?thesis by (simp add: roundRatio_def valof_pair)
  next
    case False
    with m1 have "0 < m1" by simp
    from roundRatio_err [OF this m2] show ?thesis by simp
  qed
  then have e: "\<bar>valof (roundRatio m1 m2) - real_of_int m1 / real_of_int m2\<bar>
          \<le> real_of_int m1 / real_of_int m2 / 2 ^ 53" and p: "0 \<le> fst (roundRatio m1 m2)"
    by simp_all
  have "valof (fdiv x y) - valof x / valof y =
      (valof (roundRatio m1 m2) - real_of_int m1 / real_of_int m2) * s"
    unfolding fd q by (simp add: left_diff_distrib)
  then have "\<bar>valof (fdiv x y) - valof x / valof y\<bar> =
      \<bar>valof (roundRatio m1 m2) - real_of_int m1 / real_of_int m2\<bar> * s"
    using spos by (simp add: abs_mult)
  also have "\<dots> \<le> real_of_int m1 / real_of_int m2 / 2 ^ 53 * s"
    using e spos by (intro mult_right_mono) simp_all
  also have "\<dots> = valof x / valof y / 2 ^ 53" unfolding q by simp
  finally show "\<bar>valof (fdiv x y) - valof x / valof y\<bar> \<le> valof x / valof y / 2 ^ 53" .
  show "0 \<le> fst (fdiv x y)" using p by (simp add: fdiv_def x y rr)
qed

lemma fmul_err:
  assumes "0 \<le> fst x" and "0 \<le> fst y"
  shows "\<bar>valof (fmul x y) - valof x * valof y\<bar> \<le> valof x * valof y / 2 ^ 53"
proof -
  obtain m1 e1 m2 e2 where x: "x = (m1, e1)" and y: "y = (m2, e2)" by (cases x, cases y) blast
  define p where "p = m1 * m2"
  from assms have m: "0 \<le> p" by (simp add: x y p_def)
  obtain m e where rr: "roundRatio p 1 = (m, e)" by (cases "roundRatio p 1") blast
  define s where "s = pow2 e1 * pow2 e2"
  have spos: "0 < s" by (simp add: s_def)
  have fm: "valof (fmul x y) = valof (roundRatio p 1) * s"
    using rr by (simp add: fmul_def x y p_def [symmetric] valof_pair s_def pow2_add)
  have q: "valof x * valof y = real_of_int p * s"
    by (simp add: x y valof_pair s_def p_def)
  have e: "\<bar>valof (roundRatio p 1) - real_of_int p\<bar> \<le> real_of_int p / 2 ^ 53"
  proof (cases "p = 0")
    case True
    show ?thesis unfolding True by (simp add: roundRatio_def valof_pair)
  next
    case False
    with m have "0 < p" by simp
    from roundRatio_err(1) [OF this, of 1] show ?thesis by simp
  qed
  have "valof (fmul x y) - valof x * valof y = (valof (roundRatio p 1) - real_of_int p) * s"
    unfolding fm q by (simp add: left_diff_distrib)
  then have "\<bar>valof (fmul x y) - valof x * valof y\<bar> = \<bar>valof (roundRatio p 1) - real_of_int p\<bar> * s"
    using spos by (simp add: abs_mult)
  also have "\<dots> \<le> real_of_int p / 2 ^ 53 * s"
    using e spos by (intro mult_right_mono) simp_all
  also have "\<dots> = valof x * valof y / 2 ^ 53" unfolding q by simp
  finally show ?thesis .
qed

lemma score_err:
  assumes "0 \<le> c" and "0 < t" and "c < 2 ^ 53" and "t < 2 ^ 53"
  shows "\<bar>valof (fmul (fdiv (ofInt c) (ofInt t)) (ofInt 100)) - real_of_int c / real_of_int t * 100\<bar>
           \<le> real_of_int c / real_of_int t * 100 / 2 ^ 51"
proof -
  define r where "r = real_of_int c / real_of_int t"
  define q where "q = valof (fdiv (ofInt c) (ofInt t))"
  define s where "s = valof (fmul (fdiv (ofInt c) (ofInt t)) (ofInt 100))"
  define u :: real where "u = 1 / 2 ^ 53"
  have r0: "0 \<le> r" using assms by (simp add: r_def)
  have u: "0 \<le> u" "u \<le> 1" by (simp_all add: u_def)
  have vc: "valof (ofInt c) = real_of_int c" "0 \<le> fst (ofInt c)"
    using assms by (simp_all add: ofInt_exact)
  have vt: "valof (ofInt t) = real_of_int t" "0 < fst (ofInt t)"
    using assms by (simp_all add: ofInt_exact)
  have vh: "valof (ofInt 100) = 100" "0 \<le> fst (ofInt 100)"
    using ofInt_exact [of 100] by simp_all
  from fdiv_err [OF vc(2) vt(2)] have qe: "\<bar>q - r\<bar> \<le> r * u" and qp: "0 \<le> fst (fdiv (ofInt c) (ofInt t))"
    by (simp_all add: q_def r_def vc vt u_def)
  from fmul_err [OF qp vh(2)] have se: "\<bar>s - q * 100\<bar> \<le> q * 100 * u"
    by (simp add: s_def q_def vh u_def)
  from qe have q1: "q \<le> r + r * u" by linarith
  have "q * 100 * u \<le> (r + r * u) * 100 * u"
    using q1 u(1) by (intro mult_right_mono) simp_all
  with se have "\<bar>s - q * 100\<bar> \<le> (r + r * u) * 100 * u" by linarith
  with qe have "\<bar>s - r * 100\<bar> \<le> (r + r * u) * 100 * u + r * u * 100" by linarith
  also have "\<dots> = r * 100 * (u * (2 + u))" by (simp add: algebra_simps)
  also have "\<dots> \<le> r * 100 * (4 * u)"
  proof -
    have "u * (2 + u) \<le> u * 4" using u by (intro mult_left_mono) simp_all
    then show ?thesis using r0 by (intro mult_left_mono) simp_all
  qed
  also have "\<dots> = r * 100 / 2 ^ 51" by (simp add: u_def)
  finally show ?thesis by (simp add: s_def r_def)
qed

lemma score_three_of_four: "valof (fmul (fdiv (ofInt 3) (ofInt 4)) (ofInt 100)) = 75"
  by code_simp

lemma score_one_of_one: "valof (fmul (fdiv (ofInt 1) (ofInt 1)) (ofInt 100)) = 100"
  by code_simp

lemma score_eleven_of_twenty:
  "valof (fmul (fdiv (ofInt 11) (ofInt 20)) (ofInt 100)) = 55 + 1 / 2 ^ 47"
  by code_simp

section \<open>Letter grades\<close>

text \<open>
  Claim C7. For every percentage score the grade has closed lower bounds: a score of at
  least 90 is an A, of at least 80 (and below 90) a B, of at least 70 a C, of at least 60
  a D, and every lower score an F.
\<close>

theorem getGrade_closed_lower_bounds:
  "(90 \<le> p \<longrightarrow> getGrade p = ''A'') \<and>
   (80 \<le> p \<and> p < 90 \<longrightarrow> getGrade p = ''B'') \<and>
   (70 \<le> p \<and> p < 80 \<longrightarrow> getGrade p = ''C'') \<and>
   (60 \<le> p \<and> p < 70 \<longrightarrow> getGrade p = ''D'') \<and>
   (p < 60 \<longrightarrow> getGrade p = ''F'')"
  by (simp add: getGrade_def)

theorem getGrade_closed_lower_bounds_witness:
  "getGrade 90 = ''A'' \<and> getGrade 80 = ''B'' \<and> getGrade 70 = ''C'' \<and> getGrade 60 = ''D'' \<and>
   getGrade (599 / 10) = ''F''"
  using getGrade_closed_lower_bounds [of 90] getGrade_closed_lower_bounds [of 80]
    getGrade_closed_lower_bounds [of 70] getGrade_closed_lower_bounds [of 60]
    getGrade_closed_lower_bounds [of "599 / 10"]
  by simp

section \<open>Scoring a test\<close>

lemma countCorrect_acc:
  "countCorrect qs ans n =
     n + length (filter (\<lambda>q. \<exists>u. ans (ID q) = Some u \<and>
            ToLower (TrimSpace u) = ToLower (TrimSpace (CorrectAnswer q))) qs)"
  by (induction qs arbitrary: n) (auto split: option.splits)

text \<open>
  Claim C2, as stated, fails: with 11 of 20 questions correct the score is
  55.00000000000001, the \<open>float64\<close> just above 55, not 11 / 20 * 100.
\<close>

theorem score_not_exact_counterexample:
  "length twentyQuestions = 20 \<and>
   calculateScore twentyQuestions elevenAnswers = (11, 55 + 1 / 2 ^ 47) \<and>
   (55 + 1 / 2 ^ 47 :: real) \<noteq> 11 / 20 * 100"
proof -
  have "countCorrect twentyQuestions elevenAnswers 0 = 11"
    by (simp add: twentyQuestions_def elevenAnswers_def string_eval)
  moreover have "length twentyQuestions = 20" by (simp add: twentyQuestions_def)
  ultimately show ?thesis
    by (simp add: calculateScore_def Let_def score_eleven_of_twenty)
qed

text \<open>
  Claim C2, amended. For every question list and answer map: the number of correct answers
  counts the questions whose id has an answer in the map that matches the correct answer,
  so a question without an answer is not correct though it counts in the total; the score
  is 0 when there is no question; otherwise it is correct / total * 100 as \<open>float64\<close>
  arithmetic computes it, which for fewer than \<open>2 ^ 53\<close> questions differs from the exact
  value by at most that value divided by \<open>2 ^ 51\<close>; four questions with three correct give
  exactly 75.
\<close>

theorem calculateScore_correct_total:
  assumes "calculateScore qs ans = (c, s)"
  shows "c = length (filter (\<lambda>q. \<exists>u. ans (ID q) = Some u \<and>
               ToLower (TrimSpace u) = ToLower (TrimSpace (CorrectAnswer q))) qs) \<and>
         c \<le> length (filter (\<lambda>q. ID q \<in> dom ans) qs) \<and>
         (length qs = 0 \<longrightarrow> s = 0) \<and>
         (0 < length qs \<and> int (length qs) < 2 ^ 53 \<longrightarrow>
            \<bar>s - real c / real (length qs) * 100\<bar> \<le> real c / real (length qs) * 100 / 2 ^ 51) \<and>
         (length qs = 4 \<and> c = 3 \<longrightarrow> s = 75)"
proof -
  let ?ok = "\<lambda>q. \<exists>u. ans (ID q) = Some u \<and>
               ToLower (TrimSpace u) = ToLower (TrimSpace (CorrectAnswer q))"
  have c: "c = length (filter ?ok qs)"
    using assms by (simp add: calculateScore_def Let_def countCorrect_acc)
  have le: "length (filter ?ok qs) \<le> length (filter (\<lambda>q. ID q \<in> dom ans) qs)"
    by (induction qs) auto
  have s: "s = (if length qs > 0
                then valof (fmul (fdiv (ofInt (int c)) (ofInt (int (length qs)))) (ofInt 100))
                else 0)"
    using assms by (auto simp add: calculateScore_def Let_def)
  have zero: "length qs = 0 \<longrightarrow> s = 0" using s by simp
  have four: "length qs = 4 \<and> c = 3 \<longrightarrow> s = 75" using s by (simp add: score_three_of_four)
  have err: "0 < length qs \<and> int (length qs) < 2 ^ 53 \<longrightarrow>
      \<bar>s - real c / real (length qs) * 100\<bar> \<le> real c / real (length qs) * 100 / 2 ^ 51"
  proof
    assume h: "0 < length qs \<and> int (length qs) < 2 ^ 53"
    have "c \<le> length qs" unfolding c by simp
    with h have "0 \<le> int c" "0 < int (length qs)" "int c < 2 ^ 53" "int (length qs) < 2 ^ 53"
      by simp_all
    from score_err [OF this] h s show
      "\<bar>s - real c / real (length qs) * 100\<bar> \<le> real c / real (length qs) * 100 / 2 ^ 51"
      by simp
  qed
  from c le zero err four show ?thesis by blast
qed

theorem calculateScore_correct_total_witness:
  "calculateScore exampleQuestions exampleAnswers = (3, 75) \<and>
   length exampleQuestions = 4 \<and> exampleAnswers 4 = None \<and>
   (3::nat) \<le> length (filter (\<lambda>q. ID q \<in> dom exampleAnswers) exampleQuestions)"
proof -
  have "countCorrect exampleQuestions exampleAnswers 0 = 3"
    by (simp add: exampleQuestions_def exampleAnswers_def string_eval)
  moreover have "length exampleQuestions = 4" by (simp add: exampleQuestions_def)
  ultimately have h: "calculateScore exampleQuestions exampleAnswers = (3, 75)"
    by (simp add: calculateScore_def Let_def score_three_of_four)
  have "length exampleQuestions = 4" "exampleAnswers 4 = None"
    by (simp_all add: exampleQuestions_def exampleAnswers_def)
  with calculateScore_correct_total [OF h] h show ?thesis by simp
qed




section \<open>Saving the result of a test\<close>

text \<open>
  Claim C1, as stated, fails: when the storage call fails, the session stays at the result
  screen of the test with its questions, its answers and its test.
\<close>

theorem save_failure_keeps_session_counterexample:
  "updateTestTaking failingSave 42 resultApp (KeyMsg ''enter'') =
     Inr (resultApp\<lparr>testTaking :=
            (testTaking resultApp)\<lparr>tt_errorMsg := ''Failed to save results: database is locked''\<rparr>\<rparr>,
          NoCmd) \<and>
   currentView (resultApp\<lparr>testTaking :=
            (testTaking resultApp)\<lparr>tt_errorMsg := ''Failed to save results: database is locked''\<rparr>\<rparr>)
     = TestTakingView \<and>
   currentQuestions resultApp = [mcQuestion] \<and> currentTest resultApp \<noteq> None \<and>
   userAnswers resultApp 1 = Some ''A'' \<and> tt_showResult (testTaking resultApp)"
  by (simp add: updateTestTaking_def handleResultView_def saveTestResults_def failingSave_def
      resultApp_def mcApp_def app_eval calculateScore_def split: prod.splits)

text \<open>
  Claim C1, amended. At the result screen, outside the review, the enter key calls
  \<open>SaveTestResult\<close> with the test's id, the score, the number of questions, the number of
  correct answers and the elapsed seconds. If the call succeeds, the test-taking model, the
  current test, the current questions and the answer map are reset and the view becomes the
  main menu. If it fails, only the error message of the test-taking model is set.
\<close>

theorem confirm_result_saves:
  assumes "currentQuestions a \<noteq> []" and "tt_showResult (testTaking a)"
    and "\<not> tt_reviewMode (testTaking a)" and "currentTest a = Some test"
    and "calculateScore (currentQuestions a) (userAnswers a) = (correct, score)"
  shows "(save (Test_ID test) score (int (length (currentQuestions a))) (int correct) elapsed = Inr r
          \<longrightarrow> updateTestTaking save elapsed a (KeyMsg ''enter'') =
                Inr (a\<lparr>testTaking := NewTestTakingModel, currentTest := None,
                       currentQuestions := [], userAnswers := Map.empty,
                       currentView := MainMenuView\<rparr>, NoCmd)) \<and>
         (save (Test_ID test) score (int (length (currentQuestions a))) (int correct) elapsed = Inl err
          \<longrightarrow> updateTestTaking save elapsed a (KeyMsg ''enter'') =
                Inr (a\<lparr>testTaking :=
                         (testTaking a)\<lparr>tt_errorMsg := ''Failed to save results: '' @ err\<rparr>\<rparr>,
                     NoCmd))"
  using assms
  by (simp add: updateTestTaking_def handleResultView_def saveTestResults_def)

theorem confirm_result_saves_witness:
  "updateTestTaking workingSave 42 resultApp (KeyMsg ''enter'') =
     Inr (resultApp\<lparr>testTaking := NewTestTakingModel, currentTest := None,
                     currentQuestions := [], userAnswers := Map.empty,
                     currentView := MainMenuView\<rparr>, NoCmd) \<and>
   updateTestTaking failingSave 42 resultApp (KeyMsg ''enter'') =
     Inr (resultApp\<lparr>testTaking :=
            (testTaking resultApp)\<lparr>tt_errorMsg := ''Failed to save results: database is locked''\<rparr>\<rparr>,
          NoCmd)"
proof -
  have h: "currentQuestions resultApp \<noteq> []" "tt_showResult (testTaking resultApp)"
    "\<not> tt_reviewMode (testTaking resultApp)"
    "currentTest resultApp = Some \<lparr>Test_ID = 7, Test_Name = ''Colours'', Test_Description = []\<rparr>"
    by (simp_all add: resultApp_def mcApp_def app_eval)
  have s: "calculateScore (currentQuestions resultApp) (userAnswers resultApp) = (1, 100)"
    by (simp add: resultApp_def mcApp_def app_eval mcQuestion_def calculateScore_def string_eval
        score_one_of_one)
  have w: "workingSave 7 100 (int (length (currentQuestions resultApp))) (int 1) 42 =
      Inr \<lparr>TR_ID = 1, TR_TestID = 7, TR_Score = 100, TR_TotalQuestions = 1,
           TR_CorrectAnswers = 1, TR_TimeTaken = 42\<rparr>"
    by (simp add: workingSave_def resultApp_def mcApp_def app_eval)
  have f: "failingSave 7 100 (int (length (currentQuestions resultApp))) (int 1) 42 =
      Inl ''database is locked''"
    by (simp add: failingSave_def)
  from confirm_result_saves [OF h s, of workingSave 42 _ "''x''"] w
    confirm_result_saves [OF h s, of failingSave 42 undefined "''database is locked''"] f
  show ?thesis by simp
qed

section \<open>Toggling the question types\<close>

lemma toggleLoop_step:
  "toggleLoop 0 types
     [''multiple_choice'' \<mapsto> n mod 3 = 0, ''true_false'' \<mapsto> n mod 3 = 1,
      ''short_answer'' \<mapsto> n mod 3 = 2] =
   [''multiple_choice'' \<mapsto> Suc n mod 3 = 0, ''true_false'' \<mapsto> Suc n mod 3 = 1,
    ''short_answer'' \<mapsto> Suc n mod 3 = 2]"
proof -
  consider "n mod 3 = 0" | "n mod 3 = 1" | "n mod 3 = 2" by linarith
  then show ?thesis
  proof cases
    case 1
    then have "Suc n mod 3 = 1" by presburger
    with 1 show ?thesis by (auto simp add: types_def enabled_def)
  next
    case 2
    then have "Suc n mod 3 = 2" by presburger
    with 2 show ?thesis by (auto simp add: types_def enabled_def)
  next
    case 3
    then have "Suc n mod 3 = 0" by presburger
    with 3 show ?thesis by (auto simp add: types_def enabled_def)
  qed
qed

lemma toggleLoop_funpow:
  "((toggleLoop 0 types) ^^ n) (pdf_questionTypes NewPDFProcessModel) =
   [''multiple_choice'' \<mapsto> n mod 3 = 0, ''true_false'' \<mapsto> n mod 3 = 1,
    ''short_answer'' \<mapsto> n mod 3 = 2]"
proof (induction n)
  case 0
  show ?case by (auto simp add: NewPDFProcessModel_def)
next
  case (Suc n)
  have "((toggleLoop 0 types) ^^ Suc n) (pdf_questionTypes NewPDFProcessModel) =
        toggleLoop 0 types (((toggleLoop 0 types) ^^ n) (pdf_questionTypes NewPDFProcessModel))"
    by (simp del: toggleLoop.simps)
  then show ?case by (simp only: Suc.IH toggleLoop_step)
qed

lemma toggles_funpow:
  "((fst \<circ> toggleQuestionTypes) ^^ n) a =
   a\<lparr>pdfProcess := (pdfProcess a)\<lparr>pdf_questionTypes :=
        ((toggleLoop 0 types) ^^ n) (pdf_questionTypes (pdfProcess a))\<rparr>\<rparr>"
proof (induction n)
  case 0
  show ?case by simp
next
  case (Suc n)
  have "((fst \<circ> toggleQuestionTypes) ^^ Suc n) a =
        fst (toggleQuestionTypes (((fst \<circ> toggleQuestionTypes) ^^ n) a))"
    by simp
  also have "\<dots> = a\<lparr>pdfProcess := (pdfProcess a)\<lparr>pdf_questionTypes :=
        ((toggleLoop 0 types) ^^ Suc n) (pdf_questionTypes (pdfProcess a))\<rparr>\<rparr>"
    by (subst Suc.IH) (simp add: toggleQuestionTypes_def del: toggleLoop.simps)
  finally show ?case .
qed

lemma toggles_types:
  assumes "pdf_questionTypes (pdfProcess a) = pdf_questionTypes NewPDFProcessModel"
  shows "pdf_questionTypes (pdfProcess (((fst \<circ> toggleQuestionTypes) ^^ n) a)) =
         [''multiple_choice'' \<mapsto> n mod 3 = 0, ''true_false'' \<mapsto> n mod 3 = 1,
          ''short_answer'' \<mapsto> n mod 3 = 2]"
  by (subst toggles_funpow) (simp add: assms toggleLoop_funpow del: toggleLoop.simps)

text \<open>
  Claim C4. In a session whose question types are the default ones (multiple choice on,
  the other two off), after any number \<open>n\<close> of toggles exactly one type is enabled, the
  one at position \<open>n mod 3\<close> of the order multiple choice, true/false, short answer: each
  toggle moves the enabled type to the next one, and three toggles give back the session
  they started from.
\<close>

theorem toggleQuestionTypes_cycle:
  assumes "pdf_questionTypes (pdfProcess a) = pdf_questionTypes NewPDFProcessModel"
  shows "pdf_questionTypes (pdfProcess (((fst \<circ> toggleQuestionTypes) ^^ n) a)) =
           [''multiple_choice'' \<mapsto> n mod 3 = 0, ''true_false'' \<mapsto> n mod 3 = 1,
            ''short_answer'' \<mapsto> n mod 3 = 2] \<and>
         {k. enabled (pdf_questionTypes (pdfProcess (((fst \<circ> toggleQuestionTypes) ^^ n) a))) k} =
           {types ! (n mod 3)} \<and>
         ((fst \<circ> toggleQuestionTypes) ^^ 3) a = a"
proof -
  let ?m = "\<lambda>n. pdf_questionTypes (pdfProcess (((fst \<circ> toggleQuestionTypes) ^^ n) a))"
  have m: "\<And>n. ?m n = [''multiple_choice'' \<mapsto> n mod 3 = 0, ''true_false'' \<mapsto> n mod 3 = 1,
            ''short_answer'' \<mapsto> n mod 3 = 2]"
    using assms by (rule toggles_types)
  consider "n mod 3 = 0" | "n mod 3 = 1" | "n mod 3 = 2" by linarith
  then have e: "{k. enabled (?m n) k} = {types ! (n mod 3)}"
    by cases (auto simp add: m enabled_def types_def split: if_splits)
  have "((toggleLoop 0 types) ^^ 3) (pdf_questionTypes (pdfProcess a)) =
        pdf_questionTypes (pdfProcess a)"
    unfolding assms toggleLoop_funpow by (auto simp add: NewPDFProcessModel_def)
  then have "((fst \<circ> toggleQuestionTypes) ^^ 3) a = a"
    by (subst toggles_funpow) simp
  with m e show ?thesis by blast
qed

theorem toggleQuestionTypes_cycle_witness:
  "pdf_questionTypes (pdfProcess (((fst \<circ> toggleQuestionTypes) ^^ 2) (NewApp ''/home/u''))) =
     [''multiple_choice'' \<mapsto> False, ''true_false'' \<mapsto> False, ''short_answer'' \<mapsto> True] \<and>
   ((fst \<circ> toggleQuestionTypes) ^^ 3) (NewApp ''/home/u'') = NewApp ''/home/u''"
proof -
  have h: "pdf_questionTypes (pdfProcess (NewApp ''/home/u'')) = pdf_questionTypes NewPDFProcessModel"
    by (simp add: NewApp_def)
  from toggleQuestionTypes_cycle [OF h, of 2] show ?thesis by simp
qed

section \<open>The escape key\<close>

text \<open>
  Claim C5. In every state of the application, whatever view, input mode or sub-mode is
  active and whatever the handlers of the views do, an escape key press gives the same
  state with the main menu as its view, and no command. So from a view other than the main
  menu it leads to the main menu, and it never leads to any other view.
\<close>

theorem escape_returns_to_main_menu:
  "Update handler a (KeyMsg ''esc'') = Inr (a\<lparr>currentView := MainMenuView\<rparr>, NoCmd)"
  by (cases "currentView a") (simp_all add: Update_def updateMainMenu_def)

section \<open>Confirming the number of questions\<close>




section \<open>Saving a custom question\<close>

lemma countValidOptions_acc:
  "countValidOptions opts n = n + int (length (filter (\<lambda>opt. TrimSpace opt \<noteq> []) opts))"
  by (induction opts arbitrary: n) auto

text \<open>
  Claim C8. The fields of the question being written are typed: the input handlers append
  a key only when it is a single byte, so the fields are ASCII text. A multiple-choice
  question with such fields, whose text and correct answer are not blank, is rejected with
  the error message about options, and nothing else changes, when at most one of its
  options is not blank; with at least two such options it is appended to the questions of
  the session and no error message is set.
\<close>

theorem saveCurrentQuestion_options:
  assumes "cq_qType (cqm_currentQuestion (customQuestion a)) = ''multiple_choice''"
    and "TrimSpace (cq_text (cqm_currentQuestion (customQuestion a))) \<noteq> []"
    and "TrimSpace (cq_correctAnswer (cqm_currentQuestion (customQuestion a))) \<noteq> []"
    and "isASCII (cq_text (cqm_currentQuestion (customQuestion a)))"
    and "isASCII (cq_correctAnswer (cqm_currentQuestion (customQuestion a)))"
    and "isASCII (cq_explanation (cqm_currentQuestion (customQuestion a)))"
    and "list_all isASCII (cq_options (cqm_currentQuestion (customQuestion a)))"
  shows "(length (filter (\<lambda>opt. TrimSpace opt \<noteq> [])
                   (cq_options (cqm_currentQuestion (customQuestion a)))) \<le> 1 \<longrightarrow>
            saveCurrentQuestion a =
              (a\<lparr>customQuestion := (customQuestion a)
                   \<lparr>cqm_errorMsg := ''Multiple choice questions need at least 2 options''\<rparr>\<rparr>,
               NoCmd)) \<and>
         (2 \<le> length (filter (\<lambda>opt. TrimSpace opt \<noteq> [])
                   (cq_options (cqm_currentQuestion (customQuestion a)))) \<longrightarrow>
            cqm_questions (customQuestion (fst (saveCurrentQuestion a))) =
              cqm_questions (customQuestion a) @
                [\<lparr>QD_Text = TrimSpace (cq_text (cqm_currentQuestion (customQuestion a))),
                  QD_Type = ''multiple_choice'',
                  QD_Options = cq_options (cqm_currentQuestion (customQuestion a)),
                  QD_CorrectAnswer =
                    TrimSpace (cq_correctAnswer (cqm_currentQuestion (customQuestion a))),
                  QD_Explanation =
                    TrimSpace (cq_explanation (cqm_currentQuestion (customQuestion a)))\<rparr>] \<and>
            cqm_errorMsg (customQuestion (fst (saveCurrentQuestion a))) =
              cqm_errorMsg (customQuestion a))"
  using assms(1-3) by (simp add: saveCurrentQuestion_def Let_def countValidOptions_acc)

theorem saveCurrentQuestion_options_witness:
  "cqm_errorMsg (customQuestion (fst (saveCurrentQuestion (customApp [''blue'', '' '', [], []])))) =
     ''Multiple choice questions need at least 2 options'' \<and>
   cqm_questions (customQuestion (fst (saveCurrentQuestion (customApp [''blue'', '' '', [], []])))) = [] \<and>
   cqm_questions (customQuestion (fst (saveCurrentQuestion (customApp [''blue'', [], ''red'', []])))) =
     [\<lparr>QD_Text = ''Which colour is the sky?'', QD_Type = ''multiple_choice'',
       QD_Options = [''blue'', [], ''red'', []], QD_CorrectAnswer = ''A'', QD_Explanation = []\<rparr>]"
proof -
  have h: "\<And>opts. cq_qType (cqm_currentQuestion (customQuestion (customApp opts))) = ''multiple_choice''"
    "\<And>opts. TrimSpace (cq_text (cqm_currentQuestion (customQuestion (customApp opts)))) \<noteq> []"
    "\<And>opts. TrimSpace (cq_correctAnswer (cqm_currentQuestion (customQuestion (customApp opts)))) \<noteq> []"
    by (simp_all add: customApp_def app_eval TrimSpace_def isSpace_def)
  have t: "\<And>opts. isASCII (cq_text (cqm_currentQuestion (customQuestion (customApp opts))))"
    "\<And>opts. isASCII (cq_correctAnswer (cqm_currentQuestion (customQuestion (customApp opts))))"
    "\<And>opts. isASCII (cq_explanation (cqm_currentQuestion (customQuestion (customApp opts))))"
    by (simp_all add: customApp_def app_eval isASCII_def)
  have o: "list_all isASCII (cq_options (cqm_currentQuestion (customQuestion
             (customApp [''blue'', '' '', [], []]))))"
    "list_all isASCII (cq_options (cqm_currentQuestion (customQuestion
             (customApp [''blue'', [], ''red'', []]))))"
    by (simp_all add: customApp_def app_eval isASCII_def)
  from saveCurrentQuestion_options [OF h t o(1)] saveCurrentQuestion_options [OF h t o(2)]
  show ?thesis by (simp add: customApp_def app_eval TrimSpace_def isSpace_def)
qed

section \<open>The text preview\<close>

lemma findBreak_None:
  "findBreak s m i = None \<longleftrightarrow>
     (\<forall>j. m - 50 < j \<and> 0 < j \<and> j \<le> i \<longrightarrow> \<not> isBreak (s ! nat j))"
proof (induction s m i rule: findBreak.induct)
  case (1 s m i)
  show ?case
  proof (cases "i > m - 50 \<and> i > 0")
    case False
    then show ?thesis by (subst findBreak.simps) auto
  next
    case True
    show ?thesis
    proof (cases "isBreak (s ! nat i)")
      case b: True
      with True show ?thesis by (subst findBreak.simps) auto
    next
      case b: False
      have "findBreak s m i = findBreak s m (i - 1)"
        using True b by (subst findBreak.simps) simp
      moreover have "(\<forall>j. m - 50 < j \<and> 0 < j \<and> j \<le> i \<longrightarrow> \<not> isBreak (s ! nat j)) \<longleftrightarrow>
            (\<forall>j. m - 50 < j \<and> 0 < j \<and> j \<le> i - 1 \<longrightarrow> \<not> isBreak (s ! nat j))"
      proof -
        have "\<And>j. j \<le> i \<longleftrightarrow> j \<le> i - 1 \<or> j = i" by auto
        then show ?thesis using b by auto
      qed
      ultimately show ?thesis using 1 True b by simp
    qed
  qed
qed

lemma findBreak_Some:
  "findBreak s m i = Some k \<longleftrightarrow>
     (m - 50 < k \<and> 0 < k \<and> k \<le> i \<and> isBreak (s ! nat k) \<and>
      (\<forall>j. k < j \<and> j \<le> i \<longrightarrow> \<not> isBreak (s ! nat j)))"
proof (induction s m i rule: findBreak.induct)
  case (1 s m i)
  show ?case
  proof (cases "i > m - 50 \<and> i > 0")
    case False
    then show ?thesis by (subst findBreak.simps) auto
  next
    case True
    show ?thesis
    proof (cases "isBreak (s ! nat i)")
      case b: True
      have "findBreak s m i = Some i"
        using True b by (subst findBreak.simps) simp
      moreover have "k = i \<longleftrightarrow> (m - 50 < k \<and> 0 < k \<and> k \<le> i \<and> isBreak (s ! nat k) \<and>
          (\<forall>j. k < j \<and> j \<le> i \<longrightarrow> \<not> isBreak (s ! nat j)))"
        using True b by (metis less_le_not_le order_refl linorder_less_linear)
      ultimately show ?thesis by auto
    next
      case b: False
      have "findBreak s m i = findBreak s m (i - 1)"
        using True b by (subst findBreak.simps) simp
      moreover have "(m - 50 < k \<and> 0 < k \<and> k \<le> i \<and> isBreak (s ! nat k) \<and>
          (\<forall>j. k < j \<and> j \<le> i \<longrightarrow> \<not> isBreak (s ! nat j))) \<longleftrightarrow>
         (m - 50 < k \<and> 0 < k \<and> k \<le> i - 1 \<and> isBreak (s ! nat k) \<and>
          (\<forall>j. k < j \<and> j \<le> i - 1 \<longrightarrow> \<not> isBreak (s ! nat j)))"
      proof -
        have "\<And>j. j \<le> i \<longleftrightarrow> j \<le> i - 1 \<or> j = i" by auto
        then show ?thesis using b by auto
      qed
      ultimately show ?thesis using 1 True b by simp
    qed
  qed
qed

text \<open>
  Claim C9, as stated, fails: a space at position 0 lies at or below the maximal length and
  within 50 characters of it, yet the text is cut at the maximal length.
\<close>

theorem break_at_zero_ignored_counterexample:
  "isBreak ('' abcdefghi'' ! 0) \<and> (0::int) \<le> 5 \<and> (5::int) - 0 < 50 \<and>
   int (length '' abcdefghi'') > 5 \<and>
   GetTextSummary '' abcdefghi'' 5 = Inr '' abcd...'' \<and>
   GetTextSummary '' abcdefghi'' 5 \<noteq> Inr (take 0 '' abcdefghi'' @ ''...'')"
  by (simp add: GetTextSummary_def findBreak.simps isBreak_def)

text \<open>
  Claim C9, amended. A text of at most the maximal length is returned unchanged. For a
  maximal length that is not negative and a longer text: when a space, full stop or line
  feed stands at a position \<open>k\<close> with \<open>0 < k\<close>, \<open>k\<close> at most the maximal length and less
  than 50 below it, the text is cut at the highest such position; when there is none, it is
  cut at the maximal length. Three dots follow the cut.
\<close>

theorem GetTextSummary_truncates:
  "(int (length s) \<le> maxLength \<longrightarrow> GetTextSummary s maxLength = Inr s) \<and>
   (0 \<le> maxLength \<and> maxLength < int (length s) \<and>
    0 < k \<and> k \<le> maxLength \<and> maxLength - k < 50 \<and> isBreak (s ! nat k) \<and>
    (\<forall>j. k < j \<and> j \<le> maxLength \<longrightarrow> \<not> isBreak (s ! nat j)) \<longrightarrow>
      GetTextSummary s maxLength = Inr (take (nat k) s @ ''...'')) \<and>
   (0 \<le> maxLength \<and> maxLength < int (length s) \<and>
    (\<forall>j. 0 < j \<and> j \<le> maxLength \<and> maxLength - j < 50 \<longrightarrow> \<not> isBreak (s ! nat j)) \<longrightarrow>
      GetTextSummary s maxLength = Inr (take (nat maxLength) s @ ''...''))"
proof (intro conjI impI)
  assume "int (length s) \<le> maxLength"
  then show "GetTextSummary s maxLength = Inr s" by (simp add: GetTextSummary_def)
next
  assume h: "0 \<le> maxLength \<and> maxLength < int (length s) \<and>
    0 < k \<and> k \<le> maxLength \<and> maxLength - k < 50 \<and> isBreak (s ! nat k) \<and>
    (\<forall>j. k < j \<and> j \<le> maxLength \<longrightarrow> \<not> isBreak (s ! nat j))"
  then have "findBreak s maxLength maxLength = Some k"
    by (subst findBreak_Some) auto
  with h show "GetTextSummary s maxLength = Inr (take (nat k) s @ ''...'')"
    by (simp add: GetTextSummary_def)
next
  assume h: "0 \<le> maxLength \<and> maxLength < int (length s) \<and>
    (\<forall>j. 0 < j \<and> j \<le> maxLength \<and> maxLength - j < 50 \<longrightarrow> \<not> isBreak (s ! nat j))"
  then have "findBreak s maxLength maxLength = None"
    by (subst findBreak_None) auto
  with h show "GetTextSummary s maxLength = Inr (take (nat maxLength) s @ ''...'')"
    by (simp add: GetTextSummary_def)
qed

theorem GetTextSummary_truncates_witness:
  "GetTextSummary ''short'' 10 = Inr ''short'' \<and>
   GetTextSummary ''The quick brown fox'' 12 = Inr ''The quick...'' \<and>
   GetTextSummary ''abcdefghijklmno'' 10 = Inr ''abcdefghij...''"
proof -
  have a: "int (length ''short'') \<le> 10" by simp
  have b: "0 \<le> (12::int) \<and> 12 < int (length ''The quick brown fox'') \<and>
    0 < (9::int) \<and> (9::int) \<le> 12 \<and> (12::int) - 9 < 50 \<and> isBreak (''The quick brown fox'' ! nat 9) \<and>
    (\<forall>j. 9 < j \<and> j \<le> 12 \<longrightarrow> \<not> isBreak (''The quick brown fox'' ! nat j))"
  proof -
    have "\<not> isBreak (''The quick brown fox'' ! nat j)" if "9 < j \<and> j \<le> 12" for j :: int
    proof -
      from that have "j = 10 \<or> j = 11 \<or> j = 12" by auto
      then show ?thesis by (elim disjE) (simp_all add: isBreak_def)
    qed
    then have "\<forall>j::int. 9 < j \<and> j \<le> 12 \<longrightarrow> \<not> isBreak (''The quick brown fox'' ! nat j)"
      by blast
    then show ?thesis by (simp add: isBreak_def)
  qed
  have c: "0 \<le> (10::int) \<and> 10 < int (length ''abcdefghijklmno'') \<and>
    (\<forall>j. 0 < j \<and> j \<le> 10 \<and> 10 - j < 50 \<longrightarrow> \<not> isBreak (''abcdefghijklmno'' ! nat j))"
  proof -
    have "\<not> isBreak (''abcdefghijklmno'' ! nat j)" if "0 < j \<and> j \<le> 10" for j :: int
    proof -
      from that have "j = 1 \<or> j = 2 \<or> j = 3 \<or> j = 4 \<or> j = 5 \<or> j = 6 \<or> j = 7 \<or> j = 8 \<or>
          j = 9 \<or> j = 10"
        by presburger
      then show ?thesis by (elim disjE) (simp_all add: isBreak_def)
    qed
    then have "\<forall>j::int. 0 < j \<and> j \<le> 10 \<and> 10 - j < 50 \<longrightarrow> \<not> isBreak (''abcdefghijklmno'' ! nat j)"
      by blast
    then show ?thesis by simp
  qed
  from GetTextSummary_truncates [of "''short''" 10] a
    GetTextSummary_truncates [of "''The quick brown fox''" 12 9] b
    GetTextSummary_truncates [of "''abcdefghijklmno''" 10] c
  show ?thesis by simp
qed

section \<open>Reading the options of a question back\<close>

lemma decodeUnit_safe:
  assumes "x = c # s'" and "c \<noteq> CHR 0x5C" and "\<not> (of_char c :: nat) < 0x20"
    and "utf8Size x \<noteq> 0"
  shows "decodeUnit (x @ y) = Some (take (utf8Size x) x, drop (utf8Size x) x @ y)"
proof (cases "(of_char c :: nat) < 0x80")
  case True
  then have "utf8Size x = 1" using assms(1) by (simp add: utf8Size_ascii)
  with True assms show ?thesis by (simp add: decodeUnit_def)
next
  case False
  have n: "utf8Size (x @ y) = utf8Size x" using assms(4) by (rule utf8Size_append)
  have "decodeUnit (x @ y) = Some (take (utf8Size x) (x @ y), drop (utf8Size x) (x @ y))"
    using False assms n by (simp add: decodeUnit_def Let_def)
  then show ?thesis using utf8Size_le [of x] by simp
qed

lemma unquote_safe: "jsonSafe t \<Longrightarrow> unquote (t @ CHR 0x22 # r) = Some (t, r)"
proof (induction t rule: jsonSafe.induct)
  case (1 s)
  show ?case
  proof (cases s)
    case Nil
    then show ?thesis by (simp add: unquote.simps)
  next
    case (Cons c s')
    from "1.prems" have "c \<noteq> CHR 0x22 \<and> c \<noteq> CHR 0x5C \<and> \<not> (of_char c :: nat) < 0x20 \<and>
        utf8Size s \<noteq> 0 \<and> jsonSafe (drop (utf8Size s) s)"
      by (subst (asm) jsonSafe.simps) (simp add: Cons split: if_splits)
    then have ok: "c \<noteq> CHR 0x22" "c \<noteq> CHR 0x5C" "\<not> (of_char c :: nat) < 0x20"
      "utf8Size s \<noteq> 0" and rest: "jsonSafe (drop (utf8Size s) s)"
      by simp_all
    have d: "decodeUnit (s @ CHR 0x22 # r) =
        Some (take (utf8Size s) s, drop (utf8Size s) s @ CHR 0x22 # r)"
      using Cons ok by (intro decodeUnit_safe) simp_all
    have ih: "unquote (drop (utf8Size s) s @ CHR 0x22 # r) = Some (drop (utf8Size s) s, r)"
      using "1.IH" [OF Cons _ rest] ok by simp
    show ?thesis
      using Cons ok(1) d ih by (subst unquote.simps) simp
  qed
qed

lemma encodeLoop_concat:
  "encodeLoop opts acc = acc @ concat (map ((@) separator) opts)"
  by (induction opts arbitrary: acc) simp_all

lemma separator_append: "separator @ x = CHR 0x22 # CHR '','' # CHR 0x22 # x"
  by (simp add: separator_def)

lemma parseElems_last:
  assumes "jsonSafe opt"
  shows "parseElems (CHR 0x22 # opt @ CHR 0x22 # CHR '']'' # r) = Some ([opt], r)"
proof -
  have "unquote (opt @ CHR 0x22 # CHR '']'' # r) = Some (opt, CHR '']'' # r)"
    using assms by (rule unquote_safe)
  then show ?thesis
    by (subst parseElems.simps) (simp add: parseValue_def skipWS_def isJSONSpace_def)
qed

lemma parseElems_more:
  assumes "jsonSafe opt" and "parseElems (CHR 0x22 # rest) = Some (ts, r)"
  shows "parseElems (CHR 0x22 # opt @ CHR 0x22 # CHR '','' # CHR 0x22 # rest) = Some (opt # ts, r)"
proof -
  have "unquote (opt @ CHR 0x22 # CHR '','' # CHR 0x22 # rest) =
      Some (opt, CHR '','' # CHR 0x22 # rest)"
    using assms(1) by (rule unquote_safe)
  then show ?thesis
    by (subst parseElems.simps) (simp add: parseValue_def skipWS_def isJSONSpace_def assms(2))
qed

lemma parseElems_encoded:
  "list_all jsonSafe (opt # opts) \<Longrightarrow>
   parseElems (CHR 0x22 # opt @ concat (map ((@) separator) opts) @ CHR 0x22 # CHR '']'' # r) =
     Some (opt # opts, r)"
proof (induction opts arbitrary: opt)
  case Nil
  then show ?case by (simp add: parseElems_last)
next
  case (Cons o' opts)
  from Cons.prems have s: "jsonSafe opt" and rest: "list_all jsonSafe (o' # opts)" by simp_all
  show ?case
    using parseElems_more [OF s Cons.IH [OF rest]] by (simp add: separator_append)
qed

lemma Unmarshal_encodeOptions:
  assumes "options \<noteq> []" and "list_all jsonSafe options"
  shows "Unmarshal (encodeOptions options) = Some options"
proof -
  from assms(1) obtain opt opts where o: "options = opt # opts" by (cases options) auto
  have "encodeOptions options =
      CHR ''['' # CHR 0x22 # opt @ concat (map ((@) separator) opts) @ CHR 0x22 # CHR '']'' # []"
    by (simp add: o encodeOptions_def encodeLoop_concat)
  moreover have "parseElems (CHR 0x22 # opt @
        concat (map ((@) separator) opts) @ CHR 0x22 # CHR '']'' # []) = Some (options, [])"
    using assms(2) unfolding o by (rule parseElems_encoded)
  ultimately show ?thesis
    by (simp add: Unmarshal_def skipWS_def isJSONSpace_def)
qed

lemma encodeOptions_nonempty: "options \<noteq> [] \<Longrightarrow> encodeOptions options \<noteq> []"
  by (cases options) (simp_all add: encodeOptions_def)

lemma find_fresh:
  assumes "\<forall>row \<in> set rows. row_id row \<noteq> n" and "row_id new = n"
  shows "find (\<lambda>row. row_id row = n) (rows @ [new]) = Some new"
  using assms by (induction rows) auto

lemma insertQuestion_row:
  assumes "insertQuestion db testID questionText questionType optionsJSON correctAnswer explanation
           = Inr (db', n)"
  shows "\<exists>row. db_questions db' = db_questions db @ [row] \<and> row_id row = n \<and>
           row_test_id row = testID \<and> row_options row = optionsJSON \<and>
           find (\<lambda>row. row_id row = n) (db_questions db') = Some row"
proof -
  let ?n = "Max (insert (db_sequence db) (row_id ` set (db_questions db))) + 1"
  let ?row = "\<lparr>row_id = ?n, row_test_id = testID, row_question_text = questionText,
                row_question_type = questionType, row_options = optionsJSON,
                row_correct_answer = correctAnswer, row_explanation = explanation\<rparr>"
  from assms have n: "n = ?n" and db': "db_questions db' = db_questions db @ [?row]"
    by (auto simp add: insertQuestion_def Let_def split: if_splits)
  have "\<forall>row \<in> set (db_questions db). row_id row \<le> ?n - 1"
    by (auto intro!: Max_ge)
  then have "\<forall>row \<in> set (db_questions db). row_id row \<noteq> ?n" by fastforce
  then have "find (\<lambda>row. row_id row = ?n) (db_questions db @ [?row]) = Some ?row"
    by (rule find_fresh) simp
  with n db' show ?thesis by auto
qed

lemmas json_eval = encodeOptions_def separator_def Unmarshal_def skipWS_def isJSONSpace_def
  parseElems.simps parseValue_def unquote.simps decodeUnit_def utf8Size_def seqLen_def
  acceptLo_def acceptHi_def inRange_def

lemmas db_eval = CreateQuestion_def insertQuestion_def GetQuestion_def scanQuestion_def
  GetQuestionsByTestID_def emptyDB_def

text \<open>
  Claim C10, as stated, fails: an option that holds a tab holds neither a double quote nor
  a backslash, yet the question read back has no options, because a control character
  inside a string literal is a syntax error of JSON.
\<close>

theorem control_character_option_lost_counterexample:
  "[tabOption, ''green''] \<noteq> [] \<and>
   CHR 0x22 \<notin> set tabOption \<and> CHR 0x5C \<notin> set tabOption \<and>
   CHR 0x22 \<notin> set ''green'' \<and> CHR 0x5C \<notin> set ''green'' \<and>
   snd (CreateQuestion emptyDB 7 ''Pick one'' ''multiple_choice'' ''A'' [] [tabOption, ''green'']) =
     Inr \<lparr>ID = 1, TestID = 7, QuestionText = ''Pick one'', QuestionType = ''multiple_choice'',
          Options = [], CorrectAnswer = ''A'', Explanation = []\<rparr>"
  by (simp add: tabOption_def db_eval json_eval)

text \<open>
  Claim C10, amended. When a question is created with at least one option, and every option
  is valid UTF-8 without double quote, backslash and control character below 0x20, then the
  question that \<open>CreateQuestion\<close> returns has exactly these options in this order, reading
  it with \<open>GetQuestion\<close> gives the same question, and \<open>GetQuestionsByTestID\<close> lists a
  question with its id and these options.
\<close>

theorem CreateQuestion_roundtrip:
  assumes "options \<noteq> []" and "list_all jsonSafe options"
    and "CreateQuestion db testID questionText questionType correctAnswer explanation options
         = (db', Inr q)"
  shows "Options q = options \<and> GetQuestion db' (ID q) = Inr q \<and>
         (\<exists>q' \<in> set (GetQuestionsByTestID db' testID). ID q' = ID q \<and> Options q' = options)"
proof -
  from assms(3) obtain n where
    ins: "insertQuestion db testID questionText questionType (encodeOptions options)
            correctAnswer explanation = Inr (db', n)"
    and get: "GetQuestion db' n = Inr q"
    by (auto simp add: CreateQuestion_def Let_def split: sum.splits)
  from insertQuestion_row [OF ins] obtain row where
    row: "db_questions db' = db_questions db @ [row]" "row_id row = n" "row_test_id row = testID"
      "row_options row = encodeOptions options"
      "find (\<lambda>row. row_id row = n) (db_questions db') = Some row"
    by blast
  have q: "q = scanQuestion row" using get row(5) by (simp add: GetQuestion_def)
  have opts: "Options (scanQuestion row) = options"
    using assms(1,2) row(4)
    by (simp add: scanQuestion_def Unmarshal_encodeOptions encodeOptions_nonempty)
  have idq: "ID q = n" using q row(2) by (simp add: scanQuestion_def)
  have "scanQuestion row \<in> set (GetQuestionsByTestID db' testID)"
    using row(1,3) by (simp add: GetQuestionsByTestID_def)
  with q opts idq get show ?thesis by auto
qed


theorem CreateQuestion_roundtrip_witness:
  "snd (CreateQuestion emptyDB 7 ''Pick one'' ''multiple_choice'' ''A'' [] [''red'', ''green'']) =
     Inr \<lparr>ID = 1, TestID = 7, QuestionText = ''Pick one'', QuestionType = ''multiple_choice'',
          Options = [''red'', ''green''], CorrectAnswer = ''A'', Explanation = []\<rparr>"
proof -
  let ?row = "\<lparr>row_id = 1, row_test_id = 7, row_question_text = ''Pick one'',
       row_question_type = ''multiple_choice'', row_options = encodeOptions [''red'', ''green''],
       row_correct_answer = ''A'', row_explanation = []\<rparr>"
  let ?db = "\<lparr>db_questions = [?row], db_sequence = 1\<rparr>"
  have s: "list_all jsonSafe [''red'', ''green'']"
    by (simp add: jsonSafe.simps utf8Size_def seqLen_def)
  have c: "CreateQuestion emptyDB 7 ''Pick one'' ''multiple_choice'' ''A'' [] [''red'', ''green''] =
      (?db, Inr (scanQuestion ?row))"
    by (simp add: CreateQuestion_def insertQuestion_def emptyDB_def Let_def GetQuestion_def)
  have o: "Options (scanQuestion ?row) = [''red'', ''green'']"
    using CreateQuestion_roundtrip [OF _ s c] by simp
  have e: "scanQuestion ?row =
      \<lparr>ID = 1, TestID = 7, QuestionText = ''Pick one'', QuestionType = ''multiple_choice'',
       Options = Options (scanQuestion ?row), CorrectAnswer = ''A'', Explanation = []\<rparr>"
    by (simp add: scanQuestion_def)
  show ?thesis unfolding c by (subst e) (simp add: o)
qed

end
